theory Spec2Isabelle
  imports Complex_Main
begin

section \<open>Loan amortization engine of script.js\<close>

text \<open>
  The engine of \<^verbatim>\<open>script.js\<close>: \<^verbatim>\<open>calculateLoan\<close> and the three
  repayment algorithms it dispatches to, and \<^verbatim>\<open>formatPayoffTime\<close>.

  Conventions of the embedding.
  \<^item> A JavaScript Number that holds an amount or a rate is a \<^typ>\<open>real\<close>. The engine is
    given twice. The definitions named as in the source read its arithmetic exactly: they
    are the algorithm, rounding disregarded. The definitions with the suffix \<open>_fl\<close> repeat
    them with every arithmetic result rounded to the nearest double, which is what
    JavaScript computes as long as no result is \<^verbatim>\<open>Infinity\<close> or \<^verbatim>\<open>NaN\<close>; these two
    are outside the model. Counters (\<^verbatim>\<open>period\<close>, \<^verbatim>\<open>totalPeriods\<close>,
    \<^verbatim>\<open>paymentsPerYear\<close>) are \<^typ>\<open>nat\<close>.
  \<^item> The page offers the payment frequencies 12, 26 and 52. For \<open>paymentsPerYear = 0\<close>
    JavaScript would compute the rate and the repayment count with \<^verbatim>\<open>Infinity\<close> and
    \<^verbatim>\<open>NaN\<close>; the three algorithms are modelled for a positive frequency only, and the
    theorems about them assume one.
  \<^item> A JavaScript string is a \<^typ>\<open>string\<close> holding the bytes of its UTF-8 encoding, the
    encoding of the source file; the Chinese labels are written byte by byte.
  \<^item> The engine has no \<^verbatim>\<open>throw\<close> and no early \<^verbatim>\<open>return\<close>: every function is
    total and returns its result object.
\<close>

subsection \<open>Data\<close>

text \<open>The object \<^verbatim>\<open>calculateLoan\<close> receives from the submit handler.\<close>

record params =
  principal :: real
  annualRate :: real
  years :: real
  paymentsPerYear :: nat
  "method" :: string
  extraPayment :: real

text \<open>
  One row of the schedule, as pushed in the loop of each algorithm. The source's field
  \<^verbatim>\<open>principal\<close> of a row is \<open>principalPortion\<close> here, since \<open>principal\<close> is a field
  of \<^typ>\<open>params\<close>.
\<close>

record entry =
  period :: nat
  payment :: real
  principalPortion :: real
  interest :: real
  balance :: real

text \<open>
  The object \<^verbatim>\<open>paymentInfo\<close>, tagged by its \<^verbatim>\<open>type\<close> field:
  \<open>AmortizedInfo paymentPerPeriod basePayment extraPayment\<close>,
  \<open>EqualPrincipalInfo firstPayment lastPayment extraPayment\<close>,
  \<open>InterestOnlyInfo firstPayment lastPayment extraPayment\<close>.
\<close>

datatype payment_info =
  AmortizedInfo real real real
| EqualPrincipalInfo real real real
| InterestOnlyInfo real real real

record summary =
  paymentInfo :: payment_info
  totalPaid :: real
  totalInterest :: real
  payoffLabel :: string

record calculation =
  schedule :: "entry list"
  summary :: summary

subsection \<open>The constants \<^verbatim>\<open>METHODS\<close> and \<^verbatim>\<open>frequencyLabels\<close>\<close>

definition METHODS_AMORTIZED :: string where
  "METHODS_AMORTIZED = ''amortized''"

definition METHODS_EQUAL_PRINCIPAL :: string where
  "METHODS_EQUAL_PRINCIPAL = ''equal_principal''"

definition METHODS_INTEREST_ONLY :: string where
  "METHODS_INTEREST_ONLY = ''interest_only''"

text \<open>The Chinese labels, in UTF-8: U+5E74 (year), U+6708 (month), U+5468 (week),
  U+4E24 U+5468 (two weeks), U+671F (period), U+4E2A (the measure word).\<close>

definition label_year :: string where
  "label_year = [CHR 0xE5, CHR 0xB9, CHR 0xB4]"

definition label_month :: string where
  "label_month = [CHR 0xE6, CHR 0x9C, CHR 0x88]"

definition label_week :: string where
  "label_week = [CHR 0xE5, CHR 0x91, CHR 0xA8]"

definition label_two_weeks :: string where
  "label_two_weeks = [CHR 0xE4, CHR 0xB8, CHR 0xA4, CHR 0xE5, CHR 0x91, CHR 0xA8]"

definition label_period :: string where
  "label_period = [CHR 0xE6, CHR 0x9C, CHR 0x9F]"

definition label_ge :: string where
  "label_ge = [CHR 0xE4, CHR 0xB8, CHR 0xAA]"

text \<open>U+4E0D U+8DB3 U+4E00 U+4E2A U+5468 U+671F: "less than one period".\<close>

definition label_less_than_one_period :: string where
  "label_less_than_one_period =
     [CHR 0xE4, CHR 0xB8, CHR 0x8D, CHR 0xE8, CHR 0xB6, CHR 0xB3,
      CHR 0xE4, CHR 0xB8, CHR 0x80, CHR 0xE4, CHR 0xB8, CHR 0xAA,
      CHR 0xE5, CHR 0x91, CHR 0xA8, CHR 0xE6, CHR 0x9C, CHR 0x9F]"

definition frequencyLabels :: "nat \<rightharpoonup> string" where
  "frequencyLabels = [12 \<mapsto> label_month, 26 \<mapsto> label_two_weeks, 52 \<mapsto> label_week]"

subsection \<open>\<^verbatim>\<open>formatPayoffTime\<close>\<close>

text \<open>
  A counter interpolated into a template literal: its decimal digits. (JavaScript
  switches to exponent notation from \<open>10\<^sup>2\<^sup>1\<close> on; no counter of the engine comes
  near.)
\<close>

definition digit :: "nat \<Rightarrow> char" where
  "digit d = ''0123456789'' ! d"

fun decimal :: "nat \<Rightarrow> string" where
  "decimal n =
     (if n < 10 then [digit n]
      else decimal (n div 10) @ [digit (n mod 10)])"

declare decimal.simps [simp del]

text \<open>
  \<^verbatim>\<open>Math.floor(periods / paymentsPerYear)\<close> and \<^verbatim>\<open>periods % paymentsPerYear\<close> on
  counters are \<open>div\<close> and \<open>mod\<close> when \<open>paymentsPerYear\<close> is positive. For
  \<open>paymentsPerYear = 0\<close> JavaScript divides to \<^verbatim>\<open>Infinity\<close> (\<^verbatim>\<open>NaN\<close> for 0/0) and
  the remainder is \<^verbatim>\<open>NaN\<close>, so every comparison with the remainder is false: the first
  branch writes out what the function returns then.
\<close>

definition formatPayoffTime :: "nat \<Rightarrow> nat \<Rightarrow> string" where
  "formatPayoffTime periods ppy =
     (if ppy = 0 then (if periods = 0 then [] else ''Infinity'' @ label_year)
      else
        let years_n = periods div ppy;
            remainder = periods mod ppy;
            periodLabel = (case frequencyLabels ppy of Some l \<Rightarrow> l | None \<Rightarrow> label_period)
        in if years_n = 0 \<and> remainder = 0 then label_less_than_one_period
           else
             concat
               ((if years_n > 0 then [decimal years_n @ label_year] else []) @
                (if remainder > 0 then
                   (if ppy = 12 then [decimal remainder @ label_ge @ label_month]
                    else if ppy = 26 then
                      [decimal remainder @ label_ge @ label_two_weeks @ label_period]
                    else if ppy = 52 then [decimal remainder @ label_week]
                    else [decimal remainder @ periodLabel])
                 else [])))"

subsection \<open>The period loop\<close>

text \<open>
  The three algorithms run the same \<^verbatim>\<open>while\<close> loop; they differ in how a period's
  interest, payment and principal part are computed from the balance and the period
  number. The loop is written once, over that computation (\<open>body\<close>, returning
  \<open>(interest, payment, principalPaid)\<close>).

  The mutable locals of the loop:
\<close>

record loop_state =
  cur_balance :: real
  cur_period :: nat
  cur_totalInterest :: real
  cur_totalPaid :: real
  cur_schedule :: "entry list"

text \<open>One pass through the loop body, from \<^verbatim>\<open>period += 1\<close> to \<^verbatim>\<open>schedule.push\<close>.\<close>

definition push_period :: "(real \<Rightarrow> nat \<Rightarrow> real \<times> real \<times> real) \<Rightarrow> loop_state \<Rightarrow> loop_state" where
  "push_period body st =
     (let period' = cur_period st + 1
      in case body (cur_balance st) period' of
           (interest', payment', principalPaid) \<Rightarrow>
             let balance' = max 0 (cur_balance st - principalPaid)
             in \<lparr>cur_balance = balance',
                 cur_period = period',
                 cur_totalInterest = cur_totalInterest st + interest',
                 cur_totalPaid = cur_totalPaid st + payment',
                 cur_schedule = cur_schedule st @
                   [\<lparr>period = period', payment = payment', principalPortion = principalPaid,
                     interest = interest', balance = balance'\<rparr>]\<rparr>)"

text \<open>
  \<^verbatim>\<open>while (balance > 0 && period < maxIterations) { ...; if (balance <= 0.01) { balance = 0; break; } }\<close>
\<close>

function period_loop ::
  "(real \<Rightarrow> nat \<Rightarrow> real \<times> real \<times> real) \<Rightarrow> nat \<Rightarrow> loop_state \<Rightarrow> loop_state" where
  "period_loop body maxIterations st =
     (if cur_balance st > 0 \<and> cur_period st < maxIterations then
        (let st' = push_period body st
         in if cur_balance st' \<le> 1 / 100 then st'\<lparr>cur_balance := 0\<rparr>
            else period_loop body maxIterations st')
      else st)"
  by pat_completeness auto
termination
  by (relation "measure (\<lambda>(body, maxIterations, st). maxIterations - cur_period st)")
     (auto simp: push_period_def Let_def split: prod.splits)

declare period_loop.simps [simp del]

subsection \<open>Quantities derived from the parameters\<close>

text \<open>Each algorithm starts with the same two lines.\<close>

definition periodicRate :: "params \<Rightarrow> real" where
  "periodicRate p =
     (if annualRate p > 0 then annualRate p / 100 / real (paymentsPerYear p) else 0)"

text \<open>\<^verbatim>\<open>Math.round\<close> rounds to the nearest integer, a half upwards.\<close>

definition Math_round :: "real \<Rightarrow> int" where
  "Math_round x = \<lfloor>x + 1 / 2\<rfloor>"

definition totalPeriods :: "params \<Rightarrow> nat" where
  "totalPeriods p = nat (max 1 (Math_round (years p * real (paymentsPerYear p))))"

definition maxIterations :: "params \<Rightarrow> nat" where
  "maxIterations p = totalPeriods p * 2 + 10"

text \<open>The locals as initialised before the loop, \<^verbatim>\<open>balance\<close> with the principal.\<close>

definition initial_state :: "real \<Rightarrow> loop_state" where
  "initial_state P =
     \<lparr>cur_balance = P, cur_period = 0, cur_totalInterest = 0,
      cur_totalPaid = 0, cur_schedule = []\<rparr>"

text \<open>\<^verbatim>\<open>schedule[0]?.payment ?? 0\<close> and \<^verbatim>\<open>schedule[schedule.length - 1]?.payment ?? 0\<close>.\<close>

definition firstPayment :: "entry list \<Rightarrow> real" where
  "firstPayment sch = (case sch of [] \<Rightarrow> 0 | e # _ \<Rightarrow> payment e)"

definition lastPayment :: "entry list \<Rightarrow> real" where
  "lastPayment sch = (if sch = [] then 0 else payment (last sch))"

subsection \<open>\<^verbatim>\<open>calculateAmortizedLoan\<close>\<close>

definition basePayment :: "params \<Rightarrow> real" where
  "basePayment p =
     (if periodicRate p = 0 then principal p / real (totalPeriods p)
      else principal p * periodicRate p /
           (1 - (1 + periodicRate p) powi (- int (totalPeriods p))))"

definition amortized_period :: "real \<Rightarrow> real \<Rightarrow> real \<Rightarrow> nat \<Rightarrow> real \<times> real \<times> real" where
  "amortized_period rate paymentWithExtra bal per =
     (let interest' = (if rate = 0 then 0 else bal * rate);
          payment' = min paymentWithExtra (bal + interest');
          principalPaid = payment' - interest'
      in if principalPaid > bal then (interest', bal + interest', bal)
         else (interest', payment', principalPaid))"

definition amortized_loop :: "params \<Rightarrow> loop_state" where
  "amortized_loop p =
     period_loop (amortized_period (periodicRate p) (basePayment p + extraPayment p))
       (maxIterations p) (initial_state (principal p))"

definition calculateAmortizedLoan :: "params \<Rightarrow> calculation" where
  "calculateAmortizedLoan p =
     (let final = amortized_loop p
      in \<lparr>schedule = cur_schedule final,
          summary =
            \<lparr>paymentInfo =
               AmortizedInfo (basePayment p + extraPayment p) (basePayment p) (extraPayment p),
             totalPaid = cur_totalPaid final,
             totalInterest = cur_totalInterest final,
             payoffLabel = formatPayoffTime (cur_period final) (paymentsPerYear p)\<rparr>\<rparr>)"

subsection \<open>\<^verbatim>\<open>calculateEqualPrincipalLoan\<close>\<close>

definition equal_principal_period ::
  "real \<Rightarrow> real \<Rightarrow> real \<Rightarrow> real \<Rightarrow> nat \<Rightarrow> real \<times> real \<times> real" where
  "equal_principal_period rate basePrincipalPerPeriod extra bal per =
     (let interest' = (if rate = 0 then 0 else bal * rate);
          principalPayment = basePrincipalPerPeriod + extra;
          principalPayment = (if principalPayment > bal then bal else principalPayment);
          payment' = principalPayment + interest'
      in (interest', payment', principalPayment))"

definition equal_principal_loop :: "params \<Rightarrow> loop_state" where
  "equal_principal_loop p =
     period_loop
       (equal_principal_period (periodicRate p) (principal p / real (totalPeriods p))
          (extraPayment p))
       (maxIterations p) (initial_state (principal p))"

definition calculateEqualPrincipalLoan :: "params \<Rightarrow> calculation" where
  "calculateEqualPrincipalLoan p =
     (let final = equal_principal_loop p
      in \<lparr>schedule = cur_schedule final,
          summary =
            \<lparr>paymentInfo =
               EqualPrincipalInfo (firstPayment (cur_schedule final))
                 (lastPayment (cur_schedule final)) (extraPayment p),
             totalPaid = cur_totalPaid final,
             totalInterest = cur_totalInterest final,
             payoffLabel = formatPayoffTime (cur_period final) (paymentsPerYear p)\<rparr>\<rparr>)"

subsection \<open>\<^verbatim>\<open>calculateInterestOnlyLoan\<close>\<close>

definition annualRepaymentCount :: "params \<Rightarrow> nat" where
  "annualRepaymentCount p =
     (let fullYears = totalPeriods p div paymentsPerYear p;
          remainderPeriods = totalPeriods p mod paymentsPerYear p
      in max 1 (fullYears + (if remainderPeriods > 0 then 1 else 0)))"

definition plannedAnnualPrincipal :: "params \<Rightarrow> real" where
  "plannedAnnualPrincipal p = principal p / real (annualRepaymentCount p)"

definition interest_only_period ::
  "real \<Rightarrow> nat \<Rightarrow> nat \<Rightarrow> real \<Rightarrow> real \<Rightarrow> real \<Rightarrow> nat \<Rightarrow> real \<times> real \<times> real" where
  "interest_only_period rate ppy nPeriods planned extra bal per =
     (let interest' = (if rate = 0 then 0 else bal * rate);
          isEndOfYear = (per mod ppy = 0);
          isFinalPeriod = (per = nPeriods);
          principalPaid = (if isEndOfYear \<or> isFinalPeriod then min planned bal else 0);
          principalPaid =
            (if extra > 0 \<and> bal - principalPaid > 0
             then principalPaid + min extra (bal - principalPaid) else principalPaid);
          payment' = interest' + principalPaid
      in (interest', payment', principalPaid))"

definition interest_only_loop :: "params \<Rightarrow> loop_state" where
  "interest_only_loop p =
     period_loop
       (interest_only_period (periodicRate p) (paymentsPerYear p) (totalPeriods p)
          (plannedAnnualPrincipal p) (extraPayment p))
       (maxIterations p) (initial_state (principal p))"

definition calculateInterestOnlyLoan :: "params \<Rightarrow> calculation" where
  "calculateInterestOnlyLoan p =
     (let final = interest_only_loop p
      in \<lparr>schedule = cur_schedule final,
          summary =
            \<lparr>paymentInfo =
               InterestOnlyInfo (firstPayment (cur_schedule final))
                 (lastPayment (cur_schedule final)) (extraPayment p),
             totalPaid = cur_totalPaid final,
             totalInterest = cur_totalInterest final,
             payoffLabel = formatPayoffTime (cur_period final) (paymentsPerYear p)\<rparr>\<rparr>)"

subsection \<open>\<^verbatim>\<open>calculateLoan\<close>\<close>

definition calculateLoan :: "params \<Rightarrow> calculation" where
  "calculateLoan p =
     (if method p = METHODS_EQUAL_PRINCIPAL then calculateEqualPrincipalLoan p
      else if method p = METHODS_INTEREST_ONLY then calculateInterestOnlyLoan p
      else calculateAmortizedLoan p)"

subsection \<open>What a caller receives\<close>

text \<open>
  The failure conditions the specification names. No statement of the engine raises or
  returns either of them: \<^verbatim>\<open>calculateLoan\<close> has three \<^verbatim>\<open>return\<close> statements, each
  handing on the result object of one algorithm, so a call always ends in \<open>Inr\<close>.
\<close>

datatype engine_error = InvalidInput | NonConvergence

definition calculateLoan_result :: "params \<Rightarrow> engine_error + calculation" where
  "calculateLoan_result p = Inr (calculateLoan p)"

subsection \<open>Rounding to a double\<close>

text \<open>
  \<open>fl x\<close> is the double nearest to the real number \<open>x\<close>, ties going to the even
  significand, as IEEE 754 prescribes for the result of \<^verbatim>\<open>+\<close>, \<^verbatim>\<open>-\<close>, \<^verbatim>\<open>*\<close> and
  \<^verbatim>\<open>/\<close> on finite operands. A double of exponent \<open>e\<close> is a multiple of \<open>2 powi (e - 52)\<close>;
  below \<open>2 powi (- 1022)\<close> the spacing stays that of the exponent \<open>- 1022\<close> (the subnormal
  numbers). The exponent has no upper bound here: a result beyond the largest double, which
  JavaScript turns into \<^verbatim>\<open>Infinity\<close>, is outside the model.
\<close>

definition round_half_even :: "real \<Rightarrow> int" where
  "round_half_even y =
     (let f = \<lfloor>y\<rfloor>
      in if y - of_int f < 1 / 2 then f
         else if 1 / 2 < y - of_int f then f + 1
         else if even f then f else f + 1)"

definition fl :: "real \<Rightarrow> real" where
  "fl x =
     (if x = 0 then 0
      else let e = max \<lfloor>log 2 \<bar>x\<bar>\<rfloor> (- 1022);
               u = 2 powi (e - 52)
           in of_int (round_half_even (x / u)) * u)"

subsection \<open>The algorithms on doubles\<close>

text \<open>
  The same statements with every arithmetic result rounded to a double. The names are
  those of the exact reading with the suffix \<open>_fl\<close>; the parameters are taken to hold
  doubles, as \<^verbatim>\<open>parseFloat\<close> delivers them. The counters stay exact: they are small
  integers. \<^verbatim>\<open>Math.max\<close>, \<^verbatim>\<open>Math.min\<close> and the comparisons do not round, and the
  literal \<^verbatim>\<open>0.01\<close> is the double \<open>fl (1 / 100)\<close>.
\<close>

definition push_period_fl ::
  "(real \<Rightarrow> nat \<Rightarrow> real \<times> real \<times> real) \<Rightarrow> loop_state \<Rightarrow> loop_state" where
  "push_period_fl body st =
     (let period' = cur_period st + 1
      in case body (cur_balance st) period' of
           (interest', payment', principalPaid) \<Rightarrow>
             let balance' = max 0 (fl (cur_balance st - principalPaid))
             in \<lparr>cur_balance = balance',
                 cur_period = period',
                 cur_totalInterest = fl (cur_totalInterest st + interest'),
                 cur_totalPaid = fl (cur_totalPaid st + payment'),
                 cur_schedule = cur_schedule st @
                   [\<lparr>period = period', payment = payment', principalPortion = principalPaid,
                     interest = interest', balance = balance'\<rparr>]\<rparr>)"

function period_loop_fl ::
  "(real \<Rightarrow> nat \<Rightarrow> real \<times> real \<times> real) \<Rightarrow> nat \<Rightarrow> loop_state \<Rightarrow> loop_state" where
  "period_loop_fl body cap st =
     (if cur_balance st > 0 \<and> cur_period st < cap then
        (let st' = push_period_fl body st
         in if cur_balance st' \<le> fl (1 / 100) then st'\<lparr>cur_balance := 0\<rparr>
            else period_loop_fl body cap st')
      else st)"
  by pat_completeness auto
termination
  by (relation "measure (\<lambda>(body, cap, st). cap - cur_period st)")
     (auto simp: push_period_fl_def Let_def split: prod.splits)

declare period_loop_fl.simps [simp del]

text \<open>
  \<^verbatim>\<open>annualRate / 100 / paymentsPerYear\<close> is two divisions, each rounded; the product
  \<^verbatim>\<open>years * paymentsPerYear\<close> is rounded before \<^verbatim>\<open>Math.round\<close> sees it.
\<close>

definition periodicRate_fl :: "params \<Rightarrow> real" where
  "periodicRate_fl p =
     (if annualRate p > 0 then fl (fl (annualRate p / 100) / real (paymentsPerYear p)) else 0)"

definition totalPeriods_fl :: "params \<Rightarrow> nat" where
  "totalPeriods_fl p = nat (max 1 (Math_round (fl (years p * real (paymentsPerYear p)))))"

definition maxIterations_fl :: "params \<Rightarrow> nat" where
  "maxIterations_fl p = totalPeriods_fl p * 2 + 10"

text \<open>
  \<^verbatim>\<open>calculateAmortizedLoan\<close>. \<^verbatim>\<open>Math.pow\<close> is taken to return the double nearest to the
  power; an implementation may be off by one unit in the last place, which matters to no
  statement below. Where the denominator of the base payment rounds to 0 JavaScript
  continues with \<^verbatim>\<open>Infinity\<close> or \<^verbatim>\<open>NaN\<close>; the model has no such values and gives
  \<open>None\<close> there, so \<open>Some\<close> is a result object the function returns.
\<close>

definition Math_pow_fl :: "real \<Rightarrow> int \<Rightarrow> real" where
  "Math_pow_fl x n = fl (x powi n)"

definition basePayment_fl :: "params \<Rightarrow> real option" where
  "basePayment_fl p =
     (if periodicRate_fl p = 0 then Some (fl (principal p / real (totalPeriods_fl p)))
      else let denominator =
                 fl (1 - Math_pow_fl (fl (1 + periodicRate_fl p)) (- int (totalPeriods_fl p)))
           in if denominator = 0 then None
              else Some (fl (fl (principal p * periodicRate_fl p) / denominator)))"

definition amortized_period_fl :: "real \<Rightarrow> real \<Rightarrow> real \<Rightarrow> nat \<Rightarrow> real \<times> real \<times> real" where
  "amortized_period_fl rate paymentWithExtra bal per =
     (let interest' = (if rate = 0 then 0 else fl (bal * rate));
          payment' = min paymentWithExtra (fl (bal + interest'));
          principalPaid = fl (payment' - interest')
      in if principalPaid > bal then (interest', fl (bal + interest'), bal)
         else (interest', payment', principalPaid))"

definition amortized_loop_fl :: "params \<Rightarrow> real \<Rightarrow> loop_state" where
  "amortized_loop_fl p paymentWithExtra =
     period_loop_fl (amortized_period_fl (periodicRate_fl p) paymentWithExtra)
       (maxIterations_fl p) (initial_state (principal p))"

definition calculateAmortizedLoan_fl :: "params \<Rightarrow> calculation option" where
  "calculateAmortizedLoan_fl p =
     (case basePayment_fl p of
        None \<Rightarrow> None
      | Some basePayment' \<Rightarrow>
          let paymentWithExtra = fl (basePayment' + extraPayment p);
              final = amortized_loop_fl p paymentWithExtra
          in Some \<lparr>schedule = cur_schedule final,
                   summary =
                     \<lparr>paymentInfo =
                        AmortizedInfo paymentWithExtra basePayment' (extraPayment p),
                      totalPaid = cur_totalPaid final,
                      totalInterest = cur_totalInterest final,
                      payoffLabel =
                        formatPayoffTime (cur_period final) (paymentsPerYear p)\<rparr>\<rparr>)"

text \<open>\<^verbatim>\<open>calculateEqualPrincipalLoan\<close> and \<^verbatim>\<open>calculateInterestOnlyLoan\<close>.\<close>

definition equal_principal_period_fl ::
  "real \<Rightarrow> real \<Rightarrow> real \<Rightarrow> real \<Rightarrow> nat \<Rightarrow> real \<times> real \<times> real" where
  "equal_principal_period_fl rate basePrincipalPerPeriod extra bal per =
     (let interest' = (if rate = 0 then 0 else fl (bal * rate));
          principalPayment = fl (basePrincipalPerPeriod + extra);
          principalPayment = (if principalPayment > bal then bal else principalPayment);
          payment' = fl (principalPayment + interest')
      in (interest', payment', principalPayment))"

definition equal_principal_loop_fl :: "params \<Rightarrow> loop_state" where
  "equal_principal_loop_fl p =
     period_loop_fl
       (equal_principal_period_fl (periodicRate_fl p)
          (fl (principal p / real (totalPeriods_fl p))) (extraPayment p))
       (maxIterations_fl p) (initial_state (principal p))"

definition calculateEqualPrincipalLoan_fl :: "params \<Rightarrow> calculation" where
  "calculateEqualPrincipalLoan_fl p =
     (let final = equal_principal_loop_fl p
      in \<lparr>schedule = cur_schedule final,
          summary =
            \<lparr>paymentInfo =
               EqualPrincipalInfo (firstPayment (cur_schedule final))
                 (lastPayment (cur_schedule final)) (extraPayment p),
             totalPaid = cur_totalPaid final,
             totalInterest = cur_totalInterest final,
             payoffLabel = formatPayoffTime (cur_period final) (paymentsPerYear p)\<rparr>\<rparr>)"

definition annualRepaymentCount_fl :: "params \<Rightarrow> nat" where
  "annualRepaymentCount_fl p =
     (let fullYears = totalPeriods_fl p div paymentsPerYear p;
          remainderPeriods = totalPeriods_fl p mod paymentsPerYear p
      in max 1 (fullYears + (if remainderPeriods > 0 then 1 else 0)))"

definition interest_only_period_fl ::
  "real \<Rightarrow> nat \<Rightarrow> nat \<Rightarrow> real \<Rightarrow> real \<Rightarrow> real \<Rightarrow> nat \<Rightarrow> real \<times> real \<times> real" where
  "interest_only_period_fl rate ppy nPeriods planned extra bal per =
     (let interest' = (if rate = 0 then 0 else fl (bal * rate));
          isEndOfYear = (per mod ppy = 0);
          isFinalPeriod = (per = nPeriods);
          principalPaid = (if isEndOfYear \<or> isFinalPeriod then min planned bal else 0);
          principalPaid =
            (if extra > 0 \<and> fl (bal - principalPaid) > 0
             then fl (principalPaid + min extra (fl (bal - principalPaid))) else principalPaid);
          payment' = fl (interest' + principalPaid)
      in (interest', payment', principalPaid))"

definition interest_only_loop_fl :: "params \<Rightarrow> loop_state" where
  "interest_only_loop_fl p =
     period_loop_fl
       (interest_only_period_fl (periodicRate_fl p) (paymentsPerYear p) (totalPeriods_fl p)
          (fl (principal p / real (annualRepaymentCount_fl p))) (extraPayment p))
       (maxIterations_fl p) (initial_state (principal p))"

definition calculateInterestOnlyLoan_fl :: "params \<Rightarrow> calculation" where
  "calculateInterestOnlyLoan_fl p =
     (let final = interest_only_loop_fl p
      in \<lparr>schedule = cur_schedule final,
          summary =
            \<lparr>paymentInfo =
               InterestOnlyInfo (firstPayment (cur_schedule final))
                 (lastPayment (cur_schedule final)) (extraPayment p),
             totalPaid = cur_totalPaid final,
             totalInterest = cur_totalInterest final,
             payoffLabel = formatPayoffTime (cur_period final) (paymentsPerYear p)\<rparr>\<rparr>)"

text \<open>\<^verbatim>\<open>calculateLoan\<close>.\<close>

definition calculateLoan_fl :: "params \<Rightarrow> calculation option" where
  "calculateLoan_fl p =
     (if method p = METHODS_EQUAL_PRINCIPAL then Some (calculateEqualPrincipalLoan_fl p)
      else if method p = METHODS_INTEREST_ONLY then Some (calculateInterestOnlyLoan_fl p)
      else calculateAmortizedLoan_fl p)"

subsection \<open>Validated input\<close>

text \<open>
  The input contract of the engine: the ranges \<^verbatim>\<open>validateInputs\<close> checks and the
  frequencies the page offers. The method is left open: what is proved for validated
  input holds for every method string.
\<close>

definition valid :: "params \<Rightarrow> bool" where
  "valid p \<longleftrightarrow>
     principal p > 0 \<and> 0 \<le> annualRate p \<and> annualRate p \<le> 100 \<and> years p > 0 \<and>
     extraPayment p \<ge> 0 \<and>
     (paymentsPerYear p = 12 \<or> paymentsPerYear p = 26 \<or> paymentsPerYear p = 52)"

subsection \<open>Notions used in the proofs\<close>

text \<open>The final state of the loop that \<^verbatim>\<open>calculateLoan\<close> runs for the given method.\<close>

definition loop_of :: "params \<Rightarrow> loop_state" where
  "loop_of p =
     (if method p = METHODS_EQUAL_PRINCIPAL then equal_principal_loop p
      else if method p = METHODS_INTEREST_ONLY then interest_only_loop p
      else amortized_loop p)"

text \<open>The same on doubles, where the loop is run.\<close>

definition loop_fl_of :: "params \<Rightarrow> loop_state option" where
  "loop_fl_of p =
     (if method p = METHODS_EQUAL_PRINCIPAL then Some (equal_principal_loop_fl p)
      else if method p = METHODS_INTEREST_ONLY then Some (interest_only_loop_fl p)
      else map_option (\<lambda>basePayment'. amortized_loop_fl p (fl (basePayment' + extraPayment p)))
             (basePayment_fl p))"

text \<open>
  A period computation pays the loan \<open>P\<close> down along the bound \<open>U\<close> within \<open>n\<close>
  periods: from a positive balance that is at most \<open>P\<close> and at most \<open>U k\<close> after
  \<open>k < n\<close> periods, the principal part is between 0 and the balance, the balance left is
  at most \<open>U (k + 1)\<close>, and the payment is interest plus principal part.
\<close>

definition step_ok :: "(real \<Rightarrow> nat \<Rightarrow> real \<times> real \<times> real) \<Rightarrow> real \<Rightarrow> nat \<Rightarrow> (nat \<Rightarrow> real) \<Rightarrow> bool" where
  "step_ok body P n U \<longleftrightarrow>
     (\<forall>b k. 0 < b \<and> b \<le> P \<and> b \<le> U k \<and> k < n \<longrightarrow>
        (case body b (Suc k) of (i, pay, pp) \<Rightarrow>
           0 \<le> pp \<and> pp \<le> b \<and> b - pp \<le> U (Suc k) \<and> pay = i + pp))"

text \<open>
  The loop invariant under such a computation, from the initial state with balance \<open>P\<close>:
  the rows are numbered from 1, the balance is that of the last row, the principal parts
  add up to what has been paid off, and the balances of the rows do not increase.
\<close>

definition loop_inv :: "real \<Rightarrow> nat \<Rightarrow> (nat \<Rightarrow> real) \<Rightarrow> loop_state \<Rightarrow> bool" where
  "loop_inv P n U st \<longleftrightarrow>
     cur_period st \<le> n \<and>
     map period (cur_schedule st) = [1..<Suc (cur_period st)] \<and>
     0 \<le> cur_balance st \<and> cur_balance st \<le> P \<and> cur_balance st \<le> U (cur_period st) \<and>
     (if cur_schedule st = [] then cur_balance st = P
      else balance (last (cur_schedule st)) = cur_balance st) \<and>
     sum_list (map principalPortion (cur_schedule st)) = P - cur_balance st \<and>
     cur_totalPaid st =
       cur_totalInterest st + sum_list (map principalPortion (cur_schedule st)) \<and>
     sorted_wrt (\<ge>) (map balance (cur_schedule st)) \<and>
     list_all (\<lambda>e. cur_balance st \<le> balance e) (cur_schedule st)"

text \<open>What the invariant gives for the state the loop ends in.\<close>

definition paid_off :: "real \<Rightarrow> nat \<Rightarrow> loop_state \<Rightarrow> bool" where
  "paid_off P n f \<longleftrightarrow>
     cur_schedule f \<noteq> [] \<and>
     cur_balance f = 0 \<and>
     cur_period f = length (cur_schedule f) \<and>
     length (cur_schedule f) \<le> n \<and>
     map period (cur_schedule f) = [1..<Suc (length (cur_schedule f))] \<and>
     0 \<le> balance (last (cur_schedule f)) \<and>
     balance (last (cur_schedule f)) \<le> 1 / 100 \<and>
     sorted_wrt (\<ge>) (map balance (cur_schedule f)) \<and>
     sum_list (map principalPortion (cur_schedule f)) = P - balance (last (cur_schedule f)) \<and>
     cur_totalPaid f =
       cur_totalInterest f + sum_list (map principalPortion (cur_schedule f))"

text \<open>
  The balance after \<open>k\<close> payments of \<open>A\<close> at the rate \<open>r\<close>, were no payment capped;
  the bounds along which the three algorithms pay down; and the number of scheduled
  repayments of the interest-only algorithm among the first \<open>k\<close> periods.
\<close>

fun ideal_balance :: "real \<Rightarrow> real \<Rightarrow> real \<Rightarrow> nat \<Rightarrow> real" where
  "ideal_balance P r A 0 = P"
| "ideal_balance P r A (Suc k) = ideal_balance P r A k * (1 + r) - A"

definition annuity_bound :: "real \<Rightarrow> real \<Rightarrow> real \<Rightarrow> nat \<Rightarrow> real" where
  "annuity_bound P r A k = max 0 (ideal_balance P r A k)"

definition straight_line :: "real \<Rightarrow> nat \<Rightarrow> nat \<Rightarrow> real" where
  "straight_line P n k = max 0 (P - real k * (P / real n))"

definition repayments_due :: "nat \<Rightarrow> nat \<Rightarrow> nat \<Rightarrow> nat" where
  "repayments_due ppy n k = k div ppy + (if k = n \<and> n mod ppy \<noteq> 0 then 1 else 0)"

definition interest_only_bound :: "real \<Rightarrow> nat \<Rightarrow> nat \<Rightarrow> nat \<Rightarrow> nat \<Rightarrow> real" where
  "interest_only_bound P c ppy n k = max 0 (P - real (repayments_due ppy n k) * (P / real c))"

text \<open>The payment of the equal-principal algorithm at balance \<open>b\<close>, where \<open>c\<close> is the
  principal part before capping: it grows with the balance.\<close>

definition equal_principal_payment :: "real \<Rightarrow> real \<Rightarrow> real \<Rightarrow> real" where
  "equal_principal_payment r c b = min c b + (if r = 0 then 0 else b * r)"

text \<open>
  Row \<open>i + 1\<close> of the amortized schedule with payment \<open>A\<close> per period, in exact
  arithmetic, while the balance before the row is the uncapped one.
\<close>

definition amortized_row :: "real \<Rightarrow> real \<Rightarrow> real \<Rightarrow> nat \<Rightarrow> entry" where
  "amortized_row P r A i =
     \<lparr>period = Suc i,
      payment = min A (ideal_balance P r A i * (1 + r)),
      principalPortion = min A (ideal_balance P r A i * (1 + r)) - ideal_balance P r A i * r,
      interest = ideal_balance P r A i * r,
      balance = max 0 (ideal_balance P r A (Suc i))\<rparr>"


subsection \<open>Parameter sets used as examples\<close>

text \<open>A one-year monthly loan of 1200 at 6 percent.\<close>

definition example_monthly :: params where
  "example_monthly =
     \<lparr>principal = 1200, annualRate = 6, years = 1, paymentsPerYear = 12,
      method = ''amortized'', extraPayment = 0\<rparr>"

definition example_equal_principal :: params where
  "example_equal_principal = example_monthly\<lparr>method := ''equal_principal''\<rparr>"

text \<open>
  An interest-free loan of 1200 over twelve months with an extra payment of 1099.9921875
  per period, which leaves 0.0078125 after the first period. Every number involved is a
  binary fraction, so a double holds it exactly.
\<close>

definition example_residue :: params where
  "example_residue =
     \<lparr>principal = 1200, annualRate = 0, years = 1, paymentsPerYear = 12,
      method = ''equal_principal'', extraPayment = 140799 / 128\<rparr>"

text \<open>The scenario of the specification: 100000 at 5 percent over one year, monthly, with
  an extra payment of 5000 per period.\<close>

definition example_extra :: params where
  "example_extra =
     \<lparr>principal = 100000, annualRate = 5, years = 1, paymentsPerYear = 12,
      method = ''amortized'', extraPayment = 5000\<rparr>"

definition example_extra_schedule :: "entry list" where
  "example_extra_schedule = schedule (calculateAmortizedLoan example_extra)"



text \<open>Interest-only loans without interest: \<open>10 ^ 15\<close> over thirty months, and 1200 over
  three months.\<close>

definition example_large_interest_only :: params where
  "example_large_interest_only =
     \<lparr>principal = 1000000000000000, annualRate = 0, years = 5 / 2, paymentsPerYear = 12,
      method = ''interest_only'', extraPayment = 0\<rparr>"

definition example_interest_free :: params where
  "example_interest_free =
     \<lparr>principal = 1200, annualRate = 0, years = 1 / 4, paymentsPerYear = 12,
      method = ''interest_only'', extraPayment = 0\<rparr>"

text \<open>
  A loan of 1000 at 100 percent over forty years, monthly. The power
  \<open>(1 + rate) powi (- 480)\<close> is below \<open>2 powi (- 55)\<close>, so the denominator of the base
  payment rounds to 1 and the base payment is the interest of the first period.
\<close>

definition example_high_rate :: params where
  "example_high_rate =
     \<lparr>principal = 1000, annualRate = 100, years = 40, paymentsPerYear = 12,
      method = ''amortized'', extraPayment = 0\<rparr>"

section \<open>Properties\<close>

subsection \<open>The payoff label\<close>

lemma digit_not_lead: "d < 10 \<Longrightarrow> digit d \<noteq> CHR 0xE4"
proof -
  assume "d < 10"
  then have "digit d \<in> set ''0123456789''"
    unfolding digit_def by (intro nth_mem) simp
  then show ?thesis by auto
qed

lemma decimal_head: "decimal n \<noteq> [] \<and> hd (decimal n) \<noteq> CHR 0xE4"
proof (induction n rule: decimal.induct)
  case (1 n)
  show ?case
  proof (cases "n < 10")
    case True
    then show ?thesis by (subst decimal.simps, subst decimal.simps) (simp add: digit_not_lead)
  next
    case False
    with 1 show ?thesis by (subst decimal.simps, subst decimal.simps) simp
  qed
qed

text \<open>
  C9. A period count that is a whole number \<open>n \<ge> 1\<close> of years is rendered as the digits
  of \<open>n\<close> followed by the year sign and nothing else (52 weekly periods give "1" and the
  year sign); a count of 0 is rendered as the label "less than one period", which differs
  from every whole-years label. The payment frequency is any positive number.
\<close>

theorem formatPayoffTime_whole_years:
  assumes "0 < ppy" and "1 \<le> n"
  shows "formatPayoffTime (n * ppy) ppy = decimal n @ label_year
       \<and> formatPayoffTime 0 ppy = label_less_than_one_period
       \<and> label_less_than_one_period \<noteq> decimal n @ label_year"
proof -
  have "formatPayoffTime (n * ppy) ppy = decimal n @ label_year"
    using assms by (simp add: formatPayoffTime_def Let_def)
  moreover have "formatPayoffTime 0 ppy = label_less_than_one_period"
    using assms by (simp add: formatPayoffTime_def Let_def)
  moreover have "hd (decimal n @ label_year) \<noteq> hd label_less_than_one_period"
    using decimal_head [of n] by (simp add: label_less_than_one_period_def)
  then have "label_less_than_one_period \<noteq> decimal n @ label_year"
    by auto
  ultimately show ?thesis by simp
qed

theorem formatPayoffTime_whole_years_witness:
  "formatPayoffTime 52 52 = ''1'' @ label_year
    \<and> formatPayoffTime 0 52 = label_less_than_one_period"
  using formatPayoffTime_whole_years [of 52 1] by (simp add: decimal.simps digit_def)

subsection \<open>Dispatch\<close>

text \<open>
  C10. When the method is neither "equal_principal" nor "interest_only", whatever
  string it is, \<^verbatim>\<open>calculateLoan\<close> returns what the amortized algorithm returns on the
  same parameters, and the caller receives it as an ordinary result, not as a rejection.
\<close>

theorem calculateLoan_default_amortized:
  assumes "method p \<noteq> ''equal_principal''" and "method p \<noteq> ''interest_only''"
  shows "calculateLoan p = calculateAmortizedLoan p
       \<and> calculateLoan_result p = Inr (calculateAmortizedLoan p)"
  using assms
  by (simp add: calculateLoan_def calculateLoan_result_def METHODS_EQUAL_PRINCIPAL_def
      METHODS_INTEREST_ONLY_def)

theorem calculateLoan_default_amortized_witness:
  "calculateLoan
     \<lparr>principal = 1000, annualRate = 5, years = 1, paymentsPerYear = 12,
      method = ''balloon'', extraPayment = 0\<rparr> =
   calculateAmortizedLoan
     \<lparr>principal = 1000, annualRate = 5, years = 1, paymentsPerYear = 12,
      method = ''balloon'', extraPayment = 0\<rparr>
   \<and> calculateLoan_result
     \<lparr>principal = 1000, annualRate = 5, years = 1, paymentsPerYear = 12,
      method = ''balloon'', extraPayment = 0\<rparr> =
   Inr (calculateAmortizedLoan
     \<lparr>principal = 1000, annualRate = 5, years = 1, paymentsPerYear = 12,
      method = ''balloon'', extraPayment = 0\<rparr>)"
  using calculateLoan_default_amortized
    [of "\<lparr>principal = 1000, annualRate = 5, years = 1, paymentsPerYear = 12,
          method = ''balloon'', extraPayment = 0\<rparr>"]
  by simp

subsection \<open>The loop and its invariant\<close>

lemma push_period_eq:
  assumes "body (cur_balance s) (Suc (cur_period s)) = (i, pay, pp)"
  shows "push_period body s =
    \<lparr>cur_balance = max 0 (cur_balance s - pp), cur_period = Suc (cur_period s),
     cur_totalInterest = cur_totalInterest s + i, cur_totalPaid = cur_totalPaid s + pay,
     cur_schedule = cur_schedule s @
       [\<lparr>period = Suc (cur_period s), payment = pay, principalPortion = pp, interest = i,
         balance = max 0 (cur_balance s - pp)\<rparr>]\<rparr>"
  using assms by (simp add: push_period_def Let_def)

lemma push_period_schedule: "cur_schedule (push_period body s) \<noteq> []"
  by (simp add: push_period_def Let_def split: prod.splits)

text \<open>
  An invariant rule for the loop. An invariant that holds initially and is kept by every
  pass (a pass starts from the initial state or from a balance above 0.01) holds of the
  state the loop stops in; the loop stops without a pass, at the iteration cap with a
  balance above 0.01, or by the \<^verbatim>\<open>break\<close>, which is the only place where the balance
  variable and the balance of the last row part.
\<close>

lemma period_loop_rule:
  assumes "I st"
    and step: "\<And>s. I s \<Longrightarrow> 0 < cur_balance s \<Longrightarrow> cur_period s < M \<Longrightarrow>
       s = st \<or> 1 / 100 < cur_balance s \<Longrightarrow> I (push_period body s)"
  shows "\<exists>s. I s \<and>
     ((period_loop body M st = s \<and> s = st \<and> \<not> (0 < cur_balance st \<and> cur_period st < M)) \<or>
      (period_loop body M st = s \<and> cur_schedule s \<noteq> [] \<and> 1 / 100 < cur_balance s \<and> \<not> cur_period s < M) \<or>
      (period_loop body M st = s\<lparr>cur_balance := 0\<rparr> \<and> cur_schedule s \<noteq> [] \<and> cur_balance s \<le> 1 / 100))"
  using assms
proof (induction body M st rule: period_loop.induct)
  case (1 body M st)
  note step = "1.prems"(2)
  show ?case
  proof (cases "0 < cur_balance st \<and> cur_period st < M")
    case False
    then have "period_loop body M st = st" by (subst period_loop.simps) (simp only: if_False)
    with False "1.prems"(1) show ?thesis by blast
  next
    case True
    define st' where "st' = push_period body st"
    have I': "I st'" unfolding st'_def using step [of st] "1.prems"(1) True by blast
    have ne: "cur_schedule st' \<noteq> []" unfolding st'_def by (rule push_period_schedule)
    show ?thesis
    proof (cases "cur_balance st' \<le> 1 / 100")
      case True': True
      have "period_loop body M st = st'\<lparr>cur_balance := 0\<rparr>"
        using True True' by (subst period_loop.simps) (simp add: st'_def Let_def)
      with I' ne True' show ?thesis by blast
    next
      case False
      have eq: "period_loop body M st = period_loop body M st'"
        using True False by (subst period_loop.simps) (simp add: st'_def Let_def)
      have step': "I (push_period body s)"
        if "I s" "0 < cur_balance s" "cur_period s < M" "s = st' \<or> 1 / 100 < cur_balance s" for s
      proof -
        from that(4) False have "1 / 100 < cur_balance s" by auto
        with that(1-3) show ?thesis by (intro step) simp_all
      qed
      from "1.IH" [OF True st'_def False I' step'] obtain s where s: "I s"
        "(period_loop body M st' = s \<and> s = st' \<and> \<not> (0 < cur_balance st' \<and> cur_period st' < M)) \<or>
         (period_loop body M st' = s \<and> cur_schedule s \<noteq> [] \<and> 1 / 100 < cur_balance s \<and> \<not> cur_period s < M) \<or>
         (period_loop body M st' = s\<lparr>cur_balance := 0\<rparr> \<and> cur_schedule s \<noteq> [] \<and> cur_balance s \<le> 1 / 100)"
        by blast
      from s(2) False ne have
        "(period_loop body M st' = s \<and> cur_schedule s \<noteq> [] \<and> 1 / 100 < cur_balance s \<and> \<not> cur_period s < M) \<or>
         (period_loop body M st' = s\<lparr>cur_balance := 0\<rparr> \<and> cur_schedule s \<noteq> [] \<and> cur_balance s \<le> 1 / 100)"
        by auto
      with s(1) eq show ?thesis by auto
    qed
  qed
qed

lemma step_okD:
  assumes "step_ok body P n U" "0 < b" "b \<le> P" "b \<le> U k" "k < n" "body b (Suc k) = (i, pay, pp)"
  shows "0 \<le> pp" "pp \<le> b" "b - pp \<le> U (Suc k)" "pay = i + pp"
proof -
  have "case body b (Suc k) of (i, pay, pp) \<Rightarrow>
           0 \<le> pp \<and> pp \<le> b \<and> b - pp \<le> U (Suc k) \<and> pay = i + pp"
    using assms(1) [unfolded step_ok_def, rule_format, of b k] assms(2-5) by simp
  with assms(6) show "0 \<le> pp" "pp \<le> b" "b - pp \<le> U (Suc k)" "pay = i + pp" by simp_all
qed

lemma loop_inv_step:
  assumes ok: "step_ok body P n U" and Un: "U n \<le> 0"
    and inv: "loop_inv P n U s" and pos: "0 < cur_balance s"
  shows "loop_inv P n U (push_period body s)"
proof -
  obtain i pay pp where b: "body (cur_balance s) (Suc (cur_period s)) = (i, pay, pp)"
    by (metis prod_cases3)
  have k: "cur_period s < n"
  proof (rule ccontr)
    assume "\<not> cur_period s < n"
    with inv have "cur_period s = n" by (simp add: loop_inv_def)
    with inv Un pos show False by (simp add: loop_inv_def)
  qed
  from inv have bP: "cur_balance s \<le> P" and bU: "cur_balance s \<le> U (cur_period s)"
    by (simp_all add: loop_inv_def)
  note f = step_okD [OF ok pos bP bU k b]
  show ?thesis
    unfolding push_period_eq [of body s, OF b] using inv f k
    by (auto simp: loop_inv_def sorted_wrt_append list_all_iff max_def)
qed

lemma length_periods: "map period sch = [1..<Suc k] \<Longrightarrow> length sch = k"
  by (metis length_map length_upt diff_Suc_1)

text \<open>
  A computation that pays down along a bound reaching 0 after \<open>n\<close> periods, with \<open>n\<close>
  below the cap, ends by the \<^verbatim>\<open>break\<close> within \<open>n\<close> periods. A further property \<open>J\<close> of
  the schedule may be carried along.
\<close>

lemma last_period:
  assumes "map period sch = [1..<Suc (length sch)]" "sch \<noteq> []"
  shows "period (last sch) = length sch"
proof -
  have "period (last sch) = last (map period sch)" using assms(2) by (simp add: last_map)
  also have "\<dots> = length sch" unfolding assms(1) using assms(2) by (cases sch) simp_all
  finally show ?thesis .
qed

lemma paydown_inv:
  assumes ok: "step_ok body P n U" and P: "0 < P" and U0: "P \<le> U 0" and Un: "U n \<le> 0"
    and M: "n < M"
    and J0: "J []"
    and Jstep: "\<And>s. loop_inv P n U s \<Longrightarrow> J (cur_schedule s) \<Longrightarrow> 0 < cur_balance s \<Longrightarrow>
       cur_period s < n \<Longrightarrow> J (cur_schedule (push_period body s))"
  shows "paid_off P n (period_loop body M (initial_state P)) \<and>
         J (cur_schedule (period_loop body M (initial_state P)))"
proof -
  let ?I = "\<lambda>s. loop_inv P n U s \<and> J (cur_schedule s)"
  have inv0: "?I (initial_state P)"
    using P U0 J0 by (simp add: loop_inv_def initial_state_def)
  have step: "?I (push_period body s)"
    if "?I s" "0 < cur_balance s" "cur_period s < M" "s = initial_state P \<or> 1 / 100 < cur_balance s"
    for s
  proof -
    have k: "cur_period s < n"
    proof (rule ccontr)
      assume "\<not> cur_period s < n"
      with that(1) have "cur_period s = n" by (simp add: loop_inv_def)
      with that(1,2) Un show False by (simp add: loop_inv_def)
    qed
    from that k show ?thesis using loop_inv_step [OF ok Un] Jstep by blast
  qed
  from period_loop_rule [of ?I "initial_state P" M body, OF inv0 step]
  obtain s where s: "loop_inv P n U s" and J: "J (cur_schedule s)"
    and cases: "(period_loop body M (initial_state P) = s \<and> s = initial_state P \<and>
        \<not> (0 < cur_balance (initial_state P) \<and> cur_period (initial_state P) < M)) \<or>
      (period_loop body M (initial_state P) = s \<and> cur_schedule s \<noteq> [] \<and> 1 / 100 < cur_balance s \<and>
        \<not> cur_period s < M) \<or>
      (period_loop body M (initial_state P) = s\<lparr>cur_balance := 0\<rparr> \<and> cur_schedule s \<noteq> [] \<and>
        cur_balance s \<le> 1 / 100)"
    by blast
  from s have kn: "cur_period s \<le> n" by (simp add: loop_inv_def)
  from cases P M kn have fin: "period_loop body M (initial_state P) = s\<lparr>cur_balance := 0\<rparr>"
    and ne: "cur_schedule s \<noteq> []" and small: "cur_balance s \<le> 1 / 100"
    by (auto simp: initial_state_def)
  from s have len: "length (cur_schedule s) = cur_period s"
    by (simp add: loop_inv_def length_periods)
  show ?thesis
    unfolding fin using s ne small len J
    by (simp add: paid_off_def loop_inv_def)
qed

lemma paydown:
  assumes "step_ok body P n U" and "0 < P" and "P \<le> U 0" and "U n \<le> 0" and "n < M"
  shows "paid_off P n (period_loop body M (initial_state P))"
  using paydown_inv [OF assms, of "\<lambda>_. True"] by simp

subsection \<open>Each algorithm pays the loan down\<close>

lemma totalPeriods_pos: "0 < totalPeriods p"
  by (simp add: totalPeriods_def)

lemma periodicRate_nonneg: "0 \<le> periodicRate p"
  by (simp add: periodicRate_def)

lemma straight_line_0: "0 < P \<Longrightarrow> straight_line P n 0 = P"
  by (simp add: straight_line_def)

lemma straight_line_n: "0 < n \<Longrightarrow> straight_line P n n = 0"
  by (simp add: straight_line_def)

lemma straight_line_step:
  assumes "0 < b" "b \<le> straight_line P n k" "P / real n \<le> c"
  shows "b - c \<le> straight_line P n (Suc k)"
proof -
  from assms(1,2) have "b \<le> P - real k * (P / real n)"
    by (simp add: straight_line_def max_def split: if_splits)
  with assms(3) have "b - c \<le> P - real (Suc k) * (P / real n)"
    by (simp add: algebra_simps add_divide_distrib)
  then show ?thesis by (simp add: straight_line_def)
qed

lemma straight_line_nonneg: "0 \<le> straight_line P n k"
  by (simp add: straight_line_def)

lemma equal_principal_step_ok:
  assumes P: "0 < P" and n: "0 < n" and e: "0 \<le> e"
  shows "step_ok (equal_principal_period r (P / real n) e) P n (straight_line P n)"
  unfolding step_ok_def
proof (intro allI impI)
  fix b k
  assume h: "0 < b \<and> b \<le> P \<and> b \<le> straight_line P n k \<and> k < n"
  have c: "0 \<le> P / real n + e" "P / real n \<le> P / real n + e" using P n e by simp_all
  have s: "b - (P / real n + e) \<le> straight_line P n (Suc k)"
    using straight_line_step [of b P n k "P / real n + e"] h c by simp
  show "case equal_principal_period r (P / real n) e b (Suc k) of
         (i, pay, pp) \<Rightarrow> 0 \<le> pp \<and> pp \<le> b \<and> b - pp \<le> straight_line P n (Suc k) \<and> pay = i + pp"
    using h c s straight_line_nonneg [of P n "Suc k"]
    by (simp add: equal_principal_period_def Let_def)
qed

lemma amortized_zero_rate_step_ok:
  assumes P: "0 < P" and n: "0 < n" and e: "0 \<le> e"
  shows "step_ok (amortized_period 0 (P / real n + e)) P n (straight_line P n)"
  unfolding step_ok_def
proof (intro allI impI)
  fix b k
  assume h: "0 < b \<and> b \<le> P \<and> b \<le> straight_line P n k \<and> k < n"
  have c: "0 \<le> P / real n + e" "P / real n \<le> P / real n + e" using P n e by simp_all
  have s: "b - (P / real n + e) \<le> straight_line P n (Suc k)"
    using straight_line_step [of b P n k "P / real n + e"] h c by simp
  show "case amortized_period 0 (P / real n + e) b (Suc k) of
         (i, pay, pp) \<Rightarrow> 0 \<le> pp \<and> pp \<le> b \<and> b - pp \<le> straight_line P n (Suc k) \<and> pay = i + pp"
    using h c s straight_line_nonneg [of P n "Suc k"]
    by (simp add: amortized_period_def Let_def min_def)
qed

text \<open>The annuity payment brings the uncapped balance to 0 in exactly \<open>n\<close> periods.\<close>

lemma ideal_balance_closed:
  assumes "r \<noteq> 0"
  shows "ideal_balance P r A k = P * (1 + r) ^ k - A * ((1 + r) ^ k - 1) / r"
proof (induction k)
  case 0
  show ?case by simp
next
  case (Suc k)
  have alg: "(P * X - A * (X - 1) / r) * (1 + r) - A = P * (X * (1 + r)) - A * (X * (1 + r) - 1) / r"
    for X :: real
    using assms by (simp add: field_simps)
  show ?case
    using alg [of "(1 + r) ^ k"] Suc by (simp add: mult.commute)
qed

lemma annuity_denominator:
  fixes r :: real
  assumes r: "0 < r" and n: "0 < n"
  shows "0 < 1 - (1 + r) powi (- int n)" "1 - (1 + r) powi (- int n) \<le> 1"
proof -
  have "1 < (1 + r) ^ n" using r n by (intro one_less_power) simp_all
  then have "inverse ((1 + r) ^ n) < 1" "0 < inverse ((1 + r) ^ n)"
    by (simp_all add: inverse_less_1_iff)
  then show "0 < 1 - (1 + r) powi (- int n)" "1 - (1 + r) powi (- int n) \<le> 1"
    by (simp_all add: power_int_minus)
qed

lemma annuity_alg:
  fixes X :: real
  assumes "1 < X" and "r \<noteq> 0"
  shows "1 - inverse X = (X - 1) / X"
    and "P * X - (P * r / ((X - 1) / X)) * (X - 1) / r = 0"
  using assms by (simp_all add: field_simps)

lemma ideal_balance_end:
  assumes r: "0 < r" and n: "0 < n"
  shows "ideal_balance P r (P * r / (1 - (1 + r) powi (- int n))) n = 0"
proof -
  let ?q = "(1 + r) ^ n"
  have q: "1 < ?q" using r n by simp
  have r0: "r \<noteq> 0" using r by simp
  have d: "1 - (1 + r) powi (- int n) = (?q - 1) / ?q"
    using annuity_alg(1) [OF q r0] by (simp add: power_int_minus)
  show ?thesis
    unfolding d ideal_balance_closed [OF r0] using annuity_alg(2) [OF q r0, of P] by simp
qed

lemma base_covers_interest:
  fixes r :: real
  assumes r: "0 < r" and n: "0 < n" and P: "0 < P"
  shows "P * r \<le> P * r / (1 - (1 + r) powi (- int n))"
proof -
  note d = annuity_denominator [OF r n]
  have "0 \<le> P * r" using r P by simp
  then have "P * r * (1 - (1 + r) powi (- int n)) \<le> P * r * 1"
    using d(2) by (intro mult_left_mono) simp_all
  with d(1) show ?thesis by (simp add: pos_le_divide_eq)
qed

lemma amortized_step_ok:
  assumes P: "0 < P" and n: "0 < n" and e: "0 \<le> e" and r: "0 < r"
    and A: "A = P * r / (1 - (1 + r) powi (- int n))"
  shows "step_ok (amortized_period r (A + e)) P n (annuity_bound P r A)"
  unfolding step_ok_def
proof (intro allI impI)
  fix b k
  assume h: "0 < b \<and> b \<le> P \<and> b \<le> annuity_bound P r A k \<and> k < n"
  then have bi: "b \<le> ideal_balance P r A k"
    by (simp add: annuity_bound_def max_def split: if_splits)
  have "P * r \<le> A" unfolding A by (rule base_covers_interest [OF r n P])
  moreover have "b * r \<le> P * r" using h r by simp
  ultimately have int: "b * r \<le> A + e" using e by linarith
  have "b * (1 + r) \<le> ideal_balance P r A k * (1 + r)"
    using bi r by (intro mult_right_mono) simp_all
  then have nxt: "b + b * r - (A + e) \<le> ideal_balance P r A (Suc k)"
    using e by (simp add: algebra_simps)
  have U: "0 \<le> annuity_bound P r A (Suc k)"
    "ideal_balance P r A (Suc k) \<le> annuity_bound P r A (Suc k)"
    by (simp_all add: annuity_bound_def)
  show "case amortized_period r (A + e) b (Suc k) of
         (i, pay, pp) \<Rightarrow> 0 \<le> pp \<and> pp \<le> b \<and> b - pp \<le> annuity_bound P r A (Suc k) \<and> pay = i + pp"
    using h r int nxt U
    by (simp add: amortized_period_def Let_def min_def)
qed

lemma repayments_due_Suc:
  assumes "k < n"
  shows "repayments_due ppy n (Suc k) =
         repayments_due ppy n k + (if Suc k mod ppy = 0 \<or> Suc k = n then 1 else 0)"
  using assms by (auto simp: repayments_due_def div_Suc)

lemma annualRepaymentCount_due:
  assumes "0 < paymentsPerYear p"
  shows "annualRepaymentCount p = repayments_due (paymentsPerYear p) (totalPeriods p) (totalPeriods p)"
    and "0 < annualRepaymentCount p"
proof -
  have n: "0 < totalPeriods p" by (rule totalPeriods_pos)
  have "1 \<le> totalPeriods p div paymentsPerYear p +
      (if totalPeriods p mod paymentsPerYear p \<noteq> 0 then 1 else 0)"
  proof (cases "totalPeriods p mod paymentsPerYear p = 0")
    case True
    with n assms have "0 < totalPeriods p div paymentsPerYear p"
      by (metis div_greater_zero_iff mod_less neq0_conv not_le)
    then show ?thesis by simp
  next
    case False
    then show ?thesis by simp
  qed
  then show "annualRepaymentCount p = repayments_due (paymentsPerYear p) (totalPeriods p) (totalPeriods p)"
    by (simp add: annualRepaymentCount_def repayments_due_def Let_def max_def)
  show "0 < annualRepaymentCount p"
    by (simp add: annualRepaymentCount_def Let_def)
qed

lemma interest_only_bound_nonneg: "0 \<le> interest_only_bound P c ppy n k"
  by (simp add: interest_only_bound_def)

lemma interest_only_step_ok:
  assumes P: "0 < P" and c: "0 < c" and e: "0 \<le> e"
  shows "step_ok (interest_only_period r ppy n (P / real c) e) P n (interest_only_bound P c ppy n)"
  unfolding step_ok_def
proof (intro allI impI)
  fix b k
  assume h: "0 < b \<and> b \<le> P \<and> b \<le> interest_only_bound P c ppy n k \<and> k < n"
  let ?planned = "P / real c"
  let ?due = "Suc k mod ppy = 0 \<or> Suc k = n"
  define pp0 where "pp0 = (if ?due then min ?planned b else 0)"
  define pp where "pp = (if e > 0 \<and> b - pp0 > 0 then pp0 + min e (b - pp0) else pp0)"
  have pl: "0 \<le> ?planned" using P c by simp
  from h have bb: "b \<le> P - real (repayments_due ppy n k) * ?planned"
    by (simp add: interest_only_bound_def max_def split: if_splits)
  have pp0: "0 \<le> pp0" "pp0 \<le> b" using pl h by (simp_all add: pp0_def)
  have pp: "pp0 \<le> pp" "pp \<le> b" using pp0 e by (auto simp: pp_def min_def)
  have due: "real (repayments_due ppy n (Suc k)) =
      real (repayments_due ppy n k) + (if ?due then 1 else 0)"
    using repayments_due_Suc [of k n ppy] h by simp
  have "b - pp0 \<le> interest_only_bound P c ppy n (Suc k)"
  proof (cases ?due)
    case True
    then have "b - pp0 = max 0 (b - ?planned)" by (simp add: pp0_def min_def max_def)
    moreover have "b - ?planned \<le> P - real (repayments_due ppy n (Suc k)) * ?planned"
      using bb True unfolding due by (simp add: algebra_simps)
    ultimately show ?thesis by (simp add: interest_only_bound_def)
  next
    case False
    then have "b - pp0 = b" by (simp add: pp0_def)
    moreover have "b \<le> P - real (repayments_due ppy n (Suc k)) * ?planned"
      using bb False unfolding due by simp
    ultimately show ?thesis by (simp add: interest_only_bound_def)
  qed
  with pp have nxt: "b - pp \<le> interest_only_bound P c ppy n (Suc k)" by linarith
  have "interest_only_period r ppy n ?planned e b (Suc k) =
      ((if r = 0 then 0 else b * r), (if r = 0 then 0 else b * r) + pp, pp)"
    by (simp add: interest_only_period_def Let_def pp_def pp0_def)
  then show "case interest_only_period r ppy n ?planned e b (Suc k) of
         (i, pay, pp) \<Rightarrow> 0 \<le> pp \<and> pp \<le> b \<and> b - pp \<le> interest_only_bound P c ppy n (Suc k) \<and> pay = i + pp"
    using pp pp0 nxt by simp
qed

lemma interest_only_bound_ends:
  assumes "0 < P" "0 < c" "repayments_due ppy n n = c" "0 < n"
  shows "P \<le> interest_only_bound P c ppy n 0" "interest_only_bound P c ppy n n \<le> 0"
proof -
  have "repayments_due ppy n 0 = 0" using assms(4) by (simp add: repayments_due_def)
  then show "P \<le> interest_only_bound P c ppy n 0"
    by (simp add: interest_only_bound_def)
  show "interest_only_bound P c ppy n n \<le> 0"
    using assms by (simp add: interest_only_bound_def)
qed

lemma max_iterations_gt: "totalPeriods p < maxIterations p"
  by (simp add: maxIterations_def)

lemma valid_positive_rate:
  assumes "valid p" "periodicRate p \<noteq> 0"
  shows "0 < periodicRate p"
  using assms periodicRate_nonneg [of p] by simp

lemma amortized_paid_off:
  assumes v: "valid p"
  shows "paid_off (principal p) (totalPeriods p) (amortized_loop p)"
proof (cases "periodicRate p = 0")
  case True
  have "step_ok (amortized_period 0 (principal p / real (totalPeriods p) + extraPayment p))
          (principal p) (totalPeriods p) (straight_line (principal p) (totalPeriods p))"
    using v by (intro amortized_zero_rate_step_ok totalPeriods_pos) (simp_all add: valid_def)
  from paydown [OF this, of "maxIterations p"] v show ?thesis
    by (simp add: amortized_loop_def basePayment_def True initial_state_def valid_def
        straight_line_0 straight_line_n totalPeriods_pos max_iterations_gt)
next
  case False
  with v have r: "0 < periodicRate p" by (rule valid_positive_rate)
  have "step_ok (amortized_period (periodicRate p) (basePayment p + extraPayment p))
          (principal p) (totalPeriods p)
          (annuity_bound (principal p) (periodicRate p) (basePayment p))"
    using v r False
    by (intro amortized_step_ok totalPeriods_pos) (simp_all add: valid_def basePayment_def)
  from paydown [OF this, of "maxIterations p"] v r show ?thesis
    by (simp add: amortized_loop_def initial_state_def valid_def annuity_bound_def
        max_iterations_gt basePayment_def False ideal_balance_end totalPeriods_pos)
qed

lemma equal_principal_paid_off:
  assumes v: "valid p"
  shows "paid_off (principal p) (totalPeriods p) (equal_principal_loop p)"
proof -
  have "step_ok (equal_principal_period (periodicRate p) (principal p / real (totalPeriods p))
            (extraPayment p))
          (principal p) (totalPeriods p) (straight_line (principal p) (totalPeriods p))"
    using v by (intro equal_principal_step_ok totalPeriods_pos) (simp_all add: valid_def)
  from paydown [OF this, of "maxIterations p"] v show ?thesis
    by (simp add: equal_principal_loop_def initial_state_def valid_def
        straight_line_0 straight_line_n totalPeriods_pos max_iterations_gt)
qed

lemma interest_only_paid_off:
  assumes v: "valid p"
  shows "paid_off (principal p) (totalPeriods p) (interest_only_loop p)"
proof -
  from v have ppy: "0 < paymentsPerYear p" by (auto simp: valid_def)
  note c = annualRepaymentCount_due [OF ppy]
  from v have P: "0 < principal p" by (simp add: valid_def)
  have "step_ok (interest_only_period (periodicRate p) (paymentsPerYear p) (totalPeriods p)
            (principal p / real (annualRepaymentCount p)) (extraPayment p))
          (principal p) (totalPeriods p)
          (interest_only_bound (principal p) (annualRepaymentCount p) (paymentsPerYear p)
             (totalPeriods p))"
    using v c(2) by (intro interest_only_step_ok) (simp_all add: valid_def)
  from paydown [OF this P interest_only_bound_ends [OF P c(2) c(1) [symmetric] totalPeriods_pos] max_iterations_gt]
  show ?thesis
    by (simp add: interest_only_loop_def initial_state_def plannedAnnualPrincipal_def)
qed

subsection \<open>The schedule of a validated loan\<close>

lemma calculateLoan_loop:
  "schedule (calculateLoan p) = cur_schedule (loop_of p)"
  "totalPaid (summary (calculateLoan p)) = cur_totalPaid (loop_of p)"
  "totalInterest (summary (calculateLoan p)) = cur_totalInterest (loop_of p)"
  by (simp_all add: calculateLoan_def loop_of_def calculateAmortizedLoan_def
      calculateEqualPrincipalLoan_def calculateInterestOnlyLoan_def Let_def)

lemma loop_of_paid_off:
  "valid p \<Longrightarrow> paid_off (principal p) (totalPeriods p) (loop_of p)"
  by (simp add: loop_of_def amortized_paid_off equal_principal_paid_off interest_only_paid_off)





text \<open>
  For every validated parameter set and every method the schedule is not empty, the
  remaining balances of its rows do not increase, and the remaining balance of the last
  row is between 0 and 0.01.
\<close>

theorem schedule_paid_down:
  assumes "valid p"
  shows "schedule (calculateLoan p) \<noteq> [] \<and>
         sorted_wrt (\<ge>) (map balance (schedule (calculateLoan p))) \<and>
         0 \<le> balance (last (schedule (calculateLoan p))) \<and>
         balance (last (schedule (calculateLoan p))) \<le> 1 / 100"
  using loop_of_paid_off [OF assms] by (simp add: calculateLoan_loop paid_off_def)

theorem schedule_paid_down_witness:
  "valid example_monthly \<and>
   schedule (calculateLoan example_monthly) \<noteq> [] \<and>
   sorted_wrt (\<ge>) (map balance (schedule (calculateLoan example_monthly))) \<and>
   0 \<le> balance (last (schedule (calculateLoan example_monthly))) \<and>
   balance (last (schedule (calculateLoan example_monthly))) \<le> 1 / 100"
  using schedule_paid_down [of example_monthly]
  by (simp add: valid_def example_monthly_def)

lemma example_residue_periods: "totalPeriods example_residue = 12"
  by (simp add: totalPeriods_def Math_round_def example_residue_def)

lemma example_residue_amortized:
  "schedule (calculateLoan (example_residue\<lparr>method := ''amortized''\<rparr>)) =
     [\<lparr>period = 1, payment = 153599 / 128, principalPortion = 153599 / 128, interest = 0,
       balance = 1 / 128\<rparr>]"
proof -
  let ?p = "\<lparr>principal = 1200, annualRate = 0, years = 1, paymentsPerYear = 12,
      method = ''amortized'', extraPayment = 140799 / 128\<rparr>"
  have p: "example_residue\<lparr>method := ''amortized''\<rparr> = ?p" by (simp add: example_residue_def)
  have "amortized_loop ?p = period_loop (amortized_period 0 (153599 / 128)) 34 (initial_state 1200)"
    by (simp add: amortized_loop_def maxIterations_def basePayment_def periodicRate_def
        totalPeriods_def Math_round_def)
  also have "\<dots> =
     \<lparr>cur_balance = 0, cur_period = 1, cur_totalInterest = 0, cur_totalPaid = 153599 / 128,
      cur_schedule = [\<lparr>period = 1, payment = 153599 / 128, principalPortion = 153599 / 128,
        interest = 0, balance = 1 / 128\<rparr>]\<rparr>"
    by (simp add: period_loop.simps push_period_def amortized_period_def Let_def initial_state_def)
  finally show ?thesis
    unfolding p
    by (simp add: calculateLoan_def calculateAmortizedLoan_def METHODS_EQUAL_PRINCIPAL_def
        METHODS_INTEREST_ONLY_def)
qed

text \<open>
  C2. The claim that the last row's remaining balance is exactly 0 fails on the
  validated parameter set \<open>example_residue\<close>: the first period leaves 0.0078125, the loop
  stops because that is at most 0.01, and the only row of the schedule records a
  remaining balance of 0.0078125. The row is pushed before the balance is set to 0. The
  amortized algorithm does the same on these numbers.
\<close>

theorem residue_in_last_row:
  "valid example_residue \<and>
   schedule (calculateLoan example_residue) =
     [\<lparr>period = 1, payment = 153599 / 128, principalPortion = 153599 / 128, interest = 0,
       balance = 1 / 128\<rparr>] \<and>
   balance (last (schedule (calculateLoan example_residue))) \<noteq> 0 \<and>
   balance (last (schedule (calculateLoan (example_residue\<lparr>method := ''amortized''\<rparr>)))) \<noteq> 0"
proof -
  have v: "valid example_residue" by (simp add: valid_def example_residue_def)
  have "equal_principal_loop example_residue =
     period_loop (equal_principal_period 0 100 (140799 / 128)) 34
       \<lparr>cur_balance = 1200, cur_period = 0, cur_totalInterest = 0, cur_totalPaid = 0,
        cur_schedule = []\<rparr>"
    by (simp add: equal_principal_loop_def maxIterations_def example_residue_periods
        initial_state_def periodicRate_def) (simp add: example_residue_def)
  also have "\<dots> =
     \<lparr>cur_balance = 0, cur_period = 1, cur_totalInterest = 0, cur_totalPaid = 153599 / 128,
      cur_schedule = [\<lparr>period = 1, payment = 153599 / 128, principalPortion = 153599 / 128,
        interest = 0, balance = 1 / 128\<rparr>]\<rparr>"
    by (simp add: period_loop.simps push_period_def equal_principal_period_def Let_def)
  finally have "schedule (calculateLoan example_residue) =
     [\<lparr>period = 1, payment = 153599 / 128, principalPortion = 153599 / 128, interest = 0,
       balance = 1 / 128\<rparr>]"
    by (simp add: calculateLoan_def calculateEqualPrincipalLoan_def METHODS_EQUAL_PRINCIPAL_def
        example_residue_def)
  with v example_residue_amortized show ?thesis by simp
qed

subsection \<open>The equal-principal payments\<close>

lemma equal_principal_payment_mono:
  assumes "0 \<le> r" "b' \<le> b"
  shows "equal_principal_payment r c b' \<le> equal_principal_payment r c b"
proof -
  have "b' * r \<le> b * r" using assms by (intro mult_right_mono)
  with assms(2) show ?thesis by (simp add: equal_principal_payment_def min_def)
qed

lemma equal_principal_period_eq:
  "equal_principal_period r base e b k =
     ((if r = 0 then 0 else b * r), equal_principal_payment r (base + e) b, min (base + e) b)"
  by (simp add: equal_principal_period_def equal_principal_payment_def Let_def min_def)

lemma loop_inv_last:
  assumes "loop_inv P n U s" "cur_schedule s \<noteq> []"
  shows "balance (last (cur_schedule s)) = cur_balance s"
  using assms by (simp add: loop_inv_def)

lemma equal_principal_payments_sorted:
  assumes v: "valid p"
  shows "sorted_wrt (\<ge>) (map payment (cur_schedule (equal_principal_loop p)))"
proof -
  let ?r = "periodicRate p" and ?P = "principal p" and ?n = "totalPeriods p"
  let ?c = "?P / real ?n + extraPayment p"
  let ?body = "equal_principal_period ?r (?P / real ?n) (extraPayment p)"
  let ?U = "straight_line ?P ?n"
  let ?J = "\<lambda>sch. sorted_wrt (\<ge>) (map payment sch) \<and>
      (\<forall>e\<in>set sch. equal_principal_payment ?r ?c (balance (last sch)) \<le> payment e)"
  have r: "0 \<le> ?r" by (rule periodicRate_nonneg)
  have c: "0 \<le> ?c" using v by (simp add: valid_def)
  have ok: "step_ok ?body ?P ?n ?U"
    using v by (intro equal_principal_step_ok totalPeriods_pos) (simp_all add: valid_def)
  have Jstep: "?J (cur_schedule (push_period ?body s))"
    if inv: "loop_inv ?P ?n ?U s" and J: "?J (cur_schedule s)" and pos: "0 < cur_balance s"
    for s
  proof -
    let ?b = "cur_balance s"
    let ?b' = "max 0 (?b - min ?c ?b)"
    have b': "?b' \<le> ?b" using pos c by (simp add: min_def)
    have old: "equal_principal_payment ?r ?c ?b \<le> payment e" if "e \<in> set (cur_schedule s)" for e
    proof -
      from that have "cur_schedule s \<noteq> []" by auto
      then have "balance (last (cur_schedule s)) = ?b" by (rule loop_inv_last [OF inv])
      with J that show ?thesis by auto
    qed
    have mono: "equal_principal_payment ?r ?c ?b' \<le> equal_principal_payment ?r ?c ?b"
      by (rule equal_principal_payment_mono [OF r b'])
    have "push_period ?body s =
      \<lparr>cur_balance = ?b', cur_period = Suc (cur_period s),
       cur_totalInterest = cur_totalInterest s + (if ?r = 0 then 0 else ?b * ?r),
       cur_totalPaid = cur_totalPaid s + equal_principal_payment ?r ?c ?b,
       cur_schedule = cur_schedule s @
         [\<lparr>period = Suc (cur_period s), payment = equal_principal_payment ?r ?c ?b,
           principalPortion = min ?c ?b, interest = (if ?r = 0 then 0 else ?b * ?r),
           balance = ?b'\<rparr>]\<rparr>"
      by (rule push_period_eq) (simp add: equal_principal_period_eq)
    then have sch: "cur_schedule (push_period ?body s) = cur_schedule s @
         [\<lparr>period = Suc (cur_period s), payment = equal_principal_payment ?r ?c ?b,
           principalPortion = min ?c ?b, interest = (if ?r = 0 then 0 else ?b * ?r),
           balance = ?b'\<rparr>]"
      by simp
    show ?thesis
      unfolding sch using J old mono by (fastforce simp: sorted_wrt_append)
  qed
  have "paid_off ?P ?n (period_loop ?body (maxIterations p) (initial_state ?P)) \<and>
        ?J (cur_schedule (period_loop ?body (maxIterations p) (initial_state ?P)))"
    using v
    by (intro paydown_inv [OF ok, where J = ?J] Jstep)
       (simp_all add: valid_def straight_line_0 straight_line_n totalPeriods_pos max_iterations_gt)
  then show ?thesis
    by (simp add: equal_principal_loop_def)
qed

text \<open>
  C5. For a validated parameter set with no extra payment, the payments of the
  equal-principal schedule, in period order, do not increase.
\<close>

theorem equal_principal_payments_non_increasing:
  assumes "valid p" and "extraPayment p = 0"
  shows "sorted_wrt (\<ge>) (map payment (schedule (calculateEqualPrincipalLoan p)))"
  using equal_principal_payments_sorted [OF assms(1)]
  by (simp add: calculateEqualPrincipalLoan_def Let_def)

theorem equal_principal_payments_non_increasing_witness:
  "valid example_equal_principal \<and> extraPayment example_equal_principal = 0 \<and>
   sorted_wrt (\<ge>) (map payment (schedule (calculateEqualPrincipalLoan example_equal_principal)))"
  using equal_principal_payments_non_increasing [of example_equal_principal]
  by (simp add: valid_def example_equal_principal_def example_monthly_def)

subsection \<open>Rounding to a double\<close>

lemma fl_0: "fl 0 = 0"
  by (simp add: fl_def)

text \<open>The double nearest to a number whose binary exponent is known.\<close>

lemma fl_at:
  assumes "2 powi e \<le> \<bar>x\<bar>" and "\<bar>x\<bar> < 2 powi (e + 1)" and "- 1022 \<le> e"
  shows "fl x = of_int (round_half_even (x / 2 powi (e - 52))) * 2 powi (e - 52)"
proof -
  have pos: "0 < \<bar>x\<bar>"
    using assms(1) by (smt (verit) zero_less_power_int)
  have p: "(2::real) powr real_of_int k = 2 powi k" for k
    by (simp add: powr_real_of_int power_int_def inverse_eq_divide power_divide)
  have "\<lfloor>log 2 \<bar>x\<bar>\<rfloor> = e"
    using assms(1,2) pos p [of e] p [of "e + 1"]
    by (subst floor_log_eq_powr_iff) simp_all
  with assms(3) pos show ?thesis by (simp add: fl_def Let_def max_def)
qed




lemma fl_48:
  assumes "281474976710656 \<le> \<bar>x\<bar>" "\<bar>x\<bar> < 562949953421312"
  shows "fl x = of_int (round_half_even (x * 16)) / 16"
  using assms by (subst fl_at [where e = 48]) (simp_all add: power_int_minus)

lemma fl_49:
  assumes "562949953421312 \<le> \<bar>x\<bar>" "\<bar>x\<bar> < 1125899906842624"
  shows "fl x = of_int (round_half_even (x * 8)) / 8"
  using assms by (subst fl_at [where e = 49]) (simp_all add: power_int_minus)

lemma fl_cent: "fl (1 / 100) = 5764607523034235 / 576460752303423488"
  by (subst fl_at [where e = "- 7"]) (simp_all add: round_half_even_def power_int_minus)

lemma fl_eighth: "fl (1 / 8) = 1 / 8"
  by (subst fl_at [where e = "- 3"]) (simp_all add: round_half_even_def power_int_minus)


lemma fl_1: "fl 1 = 1"
  by (subst fl_at [where e = 0]) (simp_all add: round_half_even_def)

lemma fl_3: "fl 3 = 3"
  by (subst fl_at [where e = 1]) (simp_all add: round_half_even_def power_int_minus)

lemma fl_30: "fl 30 = 30"
  by (subst fl_at [where e = 4]) (simp_all add: round_half_even_def power_int_minus)

lemma fl_1200: "fl 1200 = 1200"
  by (subst fl_at [where e = 10]) (simp_all add: round_half_even_def power_int_minus)

lemma fl_2666: "fl (2666666666666667 / 4) = 2666666666666667 / 4"
  by (simp add: fl_49 round_half_even_def)

lemma fl_5335: "fl (5333333333333335 / 16) = 5333333333333335 / 16"
  by (simp add: fl_48 round_half_even_def)

lemma fl_e15: "fl 1000000000000000 = 1000000000000000"
  by (simp add: fl_49 round_half_even_def)

text \<open>Rounding does not cross a power of two, and keeps the sign.\<close>

lemma round_half_even_le:
  assumes "y \<le> of_int N"
  shows "round_half_even y \<le> N"
proof -
  have f: "\<lfloor>y\<rfloor> \<le> N" using assms by (simp add: floor_le_iff)
  show ?thesis
  proof (cases "\<lfloor>y\<rfloor> = N")
    case True
    with assms have "y = of_int N" by linarith
    then show ?thesis by (simp add: round_half_even_def)
  next
    case False
    with f have "\<lfloor>y\<rfloor> + 1 \<le> N" by simp
    with f show ?thesis by (simp add: round_half_even_def Let_def)
  qed
qed

lemma round_half_even_nonneg:
  assumes "0 \<le> y"
  shows "0 \<le> round_half_even y"
proof -
  have "0 \<le> \<lfloor>y\<rfloor>" using assms by simp
  then show ?thesis by (simp add: round_half_even_def Let_def)
qed

lemma fl_le_power_of_two:
  assumes "0 < x" and "x \<le> 2 powi k" and "- 1022 \<le> k"
  shows "0 \<le> fl x \<and> fl x \<le> 2 powi k"
proof -
  define e where "e = max \<lfloor>log 2 \<bar>x\<bar>\<rfloor> (- 1022)"
  define u :: real where "u = 2 powi (e - 52)"
  have u: "0 < u" by (simp add: u_def)
  have p: "(2::real) powr real_of_int k = 2 powi k"
    by (simp add: powr_real_of_int power_int_def inverse_eq_divide power_divide)
  have "log 2 x \<le> of_int k"
    using assms(1,2) p by (simp add: log_le_iff)
  then have "\<lfloor>log 2 \<bar>x\<bar>\<rfloor> \<le> k" using assms(1) by (simp add: floor_le_iff)
  with assms(3) have ek: "e \<le> k" by (simp add: e_def)
  define N :: int where "N = 2 ^ nat (k - e + 52)"
  have "of_int N = (2::real) powi (k - e + 52)"
    using ek by (simp add: N_def power_int_def)
  then have N: "of_int N * u = 2 powi k"
    by (simp add: u_def flip: power_int_add)
  have flx: "fl x = of_int (round_half_even (x / u)) * u"
    using assms(1) by (simp add: fl_def Let_def e_def u_def)
  have "x / u \<le> of_int N"
    using assms(2) u N by (simp add: field_simps)
  then have "round_half_even (x / u) \<le> N" by (rule round_half_even_le)
  then have "of_int (round_half_even (x / u)) * u \<le> of_int N * u"
    using u by (simp add: mult_right_mono)
  moreover have "0 \<le> round_half_even (x / u)"
    using assms(1) u by (intro round_half_even_nonneg) simp
  ultimately show ?thesis unfolding flx N using u by simp
qed

lemma fl_near_one:
  assumes "0 \<le> z" and "z \<le> 2 powi (- 55)"
  shows "fl (1 - z) = 1"
proof (cases "z = 0")
  case True
  then show ?thesis by (simp add: fl_1)
next
  case False
  with assms(1) have z: "0 < z" by simp
  from assms(2) have z': "z * 9007199254740992 \<le> 1 / 4"
    by (simp add: power_int_minus field_simps)
  have "\<lfloor>(1 - z) * 9007199254740992\<rfloor> = 9007199254740991"
    using z z' by (intro floor_unique) simp_all
  then have r: "round_half_even ((1 - z) * 9007199254740992) = 9007199254740992"
    using z z' by (simp add: round_half_even_def Let_def)
  have a: "fl (1 - z) = of_int (round_half_even ((1 - z) / 2 powi (- 1 - 52))) * 2 powi (- 1 - 52)"
    using z z' by (intro fl_at) (simp_all add: power_int_minus)
  have b: "(1 - z) / 2 powi (- 1 - 52) = (1 - z) * 9007199254740992"
    by (simp add: power_int_minus)
  show ?thesis unfolding a b r by (simp add: power_int_minus)
qed

subsection \<open>The loop on doubles\<close>

lemma push_period_fl_schedule_eq:
  "cur_schedule (push_period_fl body s) = cur_schedule s @
     [\<lparr>period = Suc (cur_period s),
       payment = fst (snd (body (cur_balance s) (Suc (cur_period s)))),
       principalPortion = snd (snd (body (cur_balance s) (Suc (cur_period s)))),
       interest = fst (body (cur_balance s) (Suc (cur_period s))),
       balance = max 0 (fl (cur_balance s - snd (snd (body (cur_balance s) (Suc (cur_period s))))))\<rparr>]"
  by (simp add: push_period_fl_def Let_def split: prod.splits)

text \<open>
  An invariant of the period computations holds of the state the loop leaves, which is
  either the state after the last period, the loop condition being false there, or that
  state with the balance reset, the balance of the last row being at most 0.01.
\<close>

lemma period_loop_fl_cases:
  assumes "I st"
    and step: "\<And>s. I s \<Longrightarrow> 0 < cur_balance s \<Longrightarrow> cur_period s < M \<Longrightarrow>
       I (push_period_fl body s)"
  shows "\<exists>s. I s \<and>
     ((period_loop_fl body M st = s \<and> \<not> (0 < cur_balance s \<and> cur_period s < M)) \<or>
      (period_loop_fl body M st = s\<lparr>cur_balance := 0\<rparr> \<and> cur_balance s \<le> fl (1 / 100)))"
  using assms
proof (induction body M st rule: period_loop_fl.induct)
  case (1 body M st)
  note step = "1.prems"(2)
  show ?case
  proof (cases "0 < cur_balance st \<and> cur_period st < M")
    case False
    then have "period_loop_fl body M st = st"
      by (subst period_loop_fl.simps) (simp only: if_False)
    with False "1.prems"(1) show ?thesis by blast
  next
    case True
    define st' where "st' = push_period_fl body st"
    have I': "I st'" unfolding st'_def using step [of st] "1.prems"(1) True by blast
    show ?thesis
    proof (cases "cur_balance st' \<le> fl (1 / 100)")
      case True': True
      have "period_loop_fl body M st = st'\<lparr>cur_balance := 0\<rparr>"
        using True True' by (subst period_loop_fl.simps) (simp add: st'_def Let_def)
      with I' True' show ?thesis by blast
    next
      case False
      have eq: "period_loop_fl body M st = period_loop_fl body M st'"
        using True False by (subst period_loop_fl.simps) (simp add: st'_def Let_def)
      from "1.IH" [OF True st'_def False I' step] show ?thesis unfolding eq .
    qed
  qed
qed

lemma period_loop_fl_rule:
  assumes "I st"
    and step: "\<And>s. I s \<Longrightarrow> 0 < cur_balance s \<Longrightarrow> cur_period s < M \<Longrightarrow>
       I (push_period_fl body s)"
  shows "\<exists>s. I s \<and>
     (period_loop_fl body M st = s \<or> period_loop_fl body M st = s\<lparr>cur_balance := 0\<rparr>) \<and>
     (cur_balance s \<le> fl (1 / 100) \<or> \<not> cur_period s < M)"
proof -
  from period_loop_fl_cases [of I st M body, OF assms] obtain s where "I s"
    and "(period_loop_fl body M st = s \<and> \<not> (0 < cur_balance s \<and> cur_period s < M)) \<or>
      (period_loop_fl body M st = s\<lparr>cur_balance := 0\<rparr> \<and> cur_balance s \<le> fl (1 / 100))"
    by blast
  moreover have "0 \<le> fl (1 / 100)" by (simp add: fl_cent)
  ultimately show ?thesis by (intro exI [of _ s]) auto
qed

text \<open>A loop that ends with a positive balance has run to the cap.\<close>

lemma period_loop_fl_capped:
  assumes "0 < cur_balance (period_loop_fl body M (initial_state P))"
  shows "cur_period (period_loop_fl body M (initial_state P)) = M \<and>
         length (cur_schedule (period_loop_fl body M (initial_state P))) = M \<and>
         (0 < M \<longrightarrow> balance (last (cur_schedule (period_loop_fl body M (initial_state P)))) =
            cur_balance (period_loop_fl body M (initial_state P)))"
proof -
  let ?I = "\<lambda>s. length (cur_schedule s) = cur_period s \<and> cur_period s \<le> M \<and>
     (cur_schedule s \<noteq> [] \<longrightarrow> balance (last (cur_schedule s)) = cur_balance s)"
  let ?f = "period_loop_fl body M (initial_state P)"
  have inv0: "?I (initial_state P)" by (simp add: initial_state_def)
  have step: "?I (push_period_fl body s)" if "?I s" "cur_period s < M" for s
    using that by (simp add: push_period_fl_def Let_def split: prod.splits)
  from period_loop_fl_cases [of ?I "initial_state P" M body, OF inv0 step]
  obtain s where s: "?I s"
    and cases: "(?f = s \<and> \<not> (0 < cur_balance s \<and> cur_period s < M)) \<or>
      (?f = s\<lparr>cur_balance := 0\<rparr> \<and> cur_balance s \<le> fl (1 / 100))"
    by blast
  from cases assms have f: "?f = s" and "\<not> (0 < cur_balance s \<and> cur_period s < M)"
    by auto
  with assms have "\<not> cur_period s < M" by simp
  with s have "cur_period s = M" by simp
  with s show ?thesis unfolding f by auto
qed

lemma maxIterations_fl_pos: "0 < maxIterations_fl p"
  by (simp add: maxIterations_fl_def)

subsection \<open>Large loans on doubles\<close>








subsection \<open>The interest-only principal parts\<close>

lemma interest_only_period_fl_no_extra:
  assumes "e \<le> 0"
  shows "snd (snd (interest_only_period_fl r ppy n planned e b k)) =
         (if k mod ppy = 0 \<or> k = n then min planned b else 0)"
  using assms by (simp add: interest_only_period_fl_def Let_def)

text \<open>
  C6, as amended. For the interest-only method with no extra payment, on doubles, a
  schedule row has the principal part 0 unless its period is a multiple of the payment
  frequency or is \<open>totalPeriods\<close>, the number of periods the term rounds to. That
  need not be the last period of the schedule.
\<close>

theorem interest_only_fl_principal_zero_off_schedule:
  assumes "valid p" and "extraPayment p = 0"
    and "e \<in> set (schedule (calculateInterestOnlyLoan_fl p))"
    and "period e mod paymentsPerYear p \<noteq> 0"
    and "period e \<noteq> totalPeriods_fl p"
  shows "principalPortion e = 0"
proof -
  let ?body = "interest_only_period_fl (periodicRate_fl p) (paymentsPerYear p)
      (totalPeriods_fl p) (fl (principal p / real (annualRepaymentCount_fl p))) (extraPayment p)"
  let ?I = "\<lambda>s. \<forall>e\<in>set (cur_schedule s). principalPortion e \<noteq> 0 \<longrightarrow>
      period e mod paymentsPerYear p = 0 \<or> period e = totalPeriods_fl p"
  have inv0: "?I (initial_state (principal p))" by (simp add: initial_state_def)
  have step: "?I (push_period_fl ?body s)" if "?I s" for s
    unfolding push_period_fl_schedule_eq using that assms(2)
    by (auto simp: interest_only_period_fl_no_extra split: if_splits)
  from period_loop_fl_rule [of ?I "initial_state (principal p)" "maxIterations_fl p" ?body,
      OF inv0 step]
  obtain s where s: "?I s"
    and fin: "interest_only_loop_fl p = s \<or> interest_only_loop_fl p = s\<lparr>cur_balance := 0\<rparr>"
    unfolding interest_only_loop_fl_def by blast
  from fin have "schedule (calculateInterestOnlyLoan_fl p) = cur_schedule s"
    by (auto simp: calculateInterestOnlyLoan_fl_def Let_def)
  with assms(3) have "e \<in> set (cur_schedule s)" by simp
  with s have "principalPortion e \<noteq> 0 \<longrightarrow>
      period e mod paymentsPerYear p = 0 \<or> period e = totalPeriods_fl p"
    by (rule bspec)
  with assms(4,5) show ?thesis by auto
qed

lemma example_interest_free_schedule:
  "schedule (calculateInterestOnlyLoan_fl example_interest_free) =
     [\<lparr>period = 1, payment = 0, principalPortion = 0, interest = 0, balance = 1200\<rparr>,
      \<lparr>period = 2, payment = 0, principalPortion = 0, interest = 0, balance = 1200\<rparr>,
      \<lparr>period = 3, payment = 1200, principalPortion = 1200, interest = 0, balance = 0\<rparr>]"
proof -
  have n: "totalPeriods_fl example_interest_free = 3"
    by (simp add: totalPeriods_fl_def Math_round_def example_interest_free_def fl_3)
  have c: "annualRepaymentCount_fl example_interest_free = 1"
    by (simp add: annualRepaymentCount_fl_def n Let_def) (simp add: example_interest_free_def)
  have "interest_only_loop_fl example_interest_free =
     period_loop_fl (interest_only_period_fl 0 12 3 1200 0) 16 (initial_state 1200)"
    by (simp add: interest_only_loop_fl_def maxIterations_fl_def n c periodicRate_fl_def)
       (simp add: example_interest_free_def fl_1200)
  also have "\<dots> =
     \<lparr>cur_balance = 0, cur_period = 3, cur_totalInterest = 0, cur_totalPaid = 1200,
      cur_schedule =
       [\<lparr>period = 1, payment = 0, principalPortion = 0, interest = 0, balance = 1200\<rparr>,
        \<lparr>period = 2, payment = 0, principalPortion = 0, interest = 0, balance = 1200\<rparr>,
        \<lparr>period = 3, payment = 1200, principalPortion = 1200, interest = 0, balance = 0\<rparr>]\<rparr>"
    by (simp add: period_loop_fl.simps push_period_fl_def interest_only_period_fl_def Let_def
        initial_state_def fl_0 fl_cent fl_1200)
  finally show ?thesis
    by (simp add: calculateInterestOnlyLoan_fl_def)
qed

theorem interest_only_fl_principal_zero_off_schedule_witness:
  "valid example_interest_free \<and> extraPayment example_interest_free = 0 \<and>
   schedule (calculateInterestOnlyLoan_fl example_interest_free) ! 0
     \<in> set (schedule (calculateInterestOnlyLoan_fl example_interest_free)) \<and>
   period (schedule (calculateInterestOnlyLoan_fl example_interest_free) ! 0)
     mod paymentsPerYear example_interest_free \<noteq> 0 \<and>
   period (schedule (calculateInterestOnlyLoan_fl example_interest_free) ! 0) \<noteq>
     totalPeriods_fl example_interest_free \<and>
   principalPortion (schedule (calculateInterestOnlyLoan_fl example_interest_free) ! 0) = 0"
proof -
  have n: "totalPeriods_fl example_interest_free = 3"
    by (simp add: totalPeriods_fl_def Math_round_def example_interest_free_def fl_3)
  show ?thesis
    using interest_only_fl_principal_zero_off_schedule
      [of example_interest_free
        "schedule (calculateInterestOnlyLoan_fl example_interest_free) ! 0"]
    by (simp add: example_interest_free_schedule n)
       (simp add: valid_def example_interest_free_def)
qed

text \<open>
  The run on \<open>example_large_interest_only\<close>: thirty periods, repayments planned in
  periods 12, 24 and 30, each of 333333333333333.3125. They leave 0.125, which stays
  until period 36, the next multiple of twelve.
\<close>

lemma example_large_interest_only_run:
  "length (cur_schedule (interest_only_loop_fl example_large_interest_only)) = 36 \<and>
   period (cur_schedule (interest_only_loop_fl example_large_interest_only) ! 29) = 30 \<and>
   principalPortion (cur_schedule (interest_only_loop_fl example_large_interest_only) ! 29) =
     5333333333333333 / 16 \<and>
   period (last (cur_schedule (interest_only_loop_fl example_large_interest_only))) = 36"
proof -
  let ?base = "5333333333333333 / 16 :: real"
  let ?body = "interest_only_period_fl 0 12 30 ?base 0"
  define B :: "nat \<Rightarrow> real" where
    "B = (\<lambda>k. if k < 12 then 1000000000000000 else if k < 24 then 2666666666666667 / 4
           else if k < 30 then 5333333333333335 / 16 else if k < 36 then 1 / 8 else 0)"
  define I :: "loop_state \<Rightarrow> bool" where "I = (\<lambda>s. cur_period s \<le> 36 \<and> cur_balance s = B (cur_period s) \<and>
      map period (cur_schedule s) = [1..<Suc (cur_period s)] \<and>
      (30 \<le> cur_period s \<longrightarrow> principalPortion (cur_schedule s ! 29) = ?base))"
  have n: "totalPeriods_fl example_large_interest_only = 30"
    by (simp add: totalPeriods_fl_def Math_round_def example_large_interest_only_def fl_30)
  have c: "annualRepaymentCount_fl example_large_interest_only = 3"
    by (simp add: annualRepaymentCount_fl_def n Let_def)
       (simp add: example_large_interest_only_def)
  have f: "interest_only_loop_fl example_large_interest_only =
      period_loop_fl ?body 70 (initial_state 1000000000000000)"
    by (simp add: interest_only_loop_fl_def maxIterations_fl_def n c periodicRate_fl_def)
       (simp add: example_large_interest_only_def fl_48 round_half_even_def)
  have flB: "fl (B k) = B k" for k
    by (simp add: B_def fl_0 fl_eighth fl_2666 fl_5335 fl_e15)
  have body: "?body b (Suc k) =
      (0, fl (if Suc k mod 12 = 0 \<or> Suc k = 30 then min ?base b else 0),
       (if Suc k mod 12 = 0 \<or> Suc k = 30 then min ?base b else 0))" for b k
    by (simp add: interest_only_period_fl_def Let_def)
  have inv0: "I (initial_state 1000000000000000)"
    by (simp add: I_def B_def initial_state_def)
  have step: "I (push_period_fl ?body s)" if s: "I s" and pos: "0 < cur_balance s" for s
  proof -
    define k where "k = cur_period s"
    from s pos have k: "k < 36" and b: "cur_balance s = B k"
      and per: "map period (cur_schedule s) = [1..<Suc k]"
      and row: "30 \<le> k \<longrightarrow> principalPortion (cur_schedule s ! 29) = ?base"
      by (auto simp: I_def k_def B_def split: if_splits)
    from per have len: "length (cur_schedule s) = k" by (rule length_periods)
    have "k = 11 \<or> k = 23 \<or> k = 29 \<or> k = 35 \<or>
        (Suc k mod 12 \<noteq> 0 \<and> Suc k \<noteq> 30 \<and> k \<noteq> 35)"
      using k by presburger
    then consider "k = 11" | "k = 23" | "k = 29" | "k = 35"
      | "Suc k mod 12 \<noteq> 0" "Suc k \<noteq> 30" "k \<noteq> 35"
      by blast
    note split = this
    define pp where "pp = (if Suc k mod 12 = 0 \<or> Suc k = 30 then min ?base (B k) else 0)"
    from split have bal: "max 0 (fl (B k - pp)) = B (Suc k)"
    proof cases
      case 1 then show ?thesis by (simp add: pp_def B_def fl_49 round_half_even_def)
    next
      case 2 then show ?thesis by (simp add: pp_def B_def fl_48 round_half_even_def)
    next
      case 3 then show ?thesis by (simp add: pp_def B_def fl_eighth)
    next
      case 4 then show ?thesis by (simp add: pp_def B_def fl_0)
    next
      case 5
      then have "k \<noteq> 11 \<and> k \<noteq> 23 \<and> k \<noteq> 29" by presburger
      then have "B (Suc k) = B k" using k 5(3) by (auto simp: B_def)
      moreover have "pp = 0" using 5 by (simp add: pp_def)
      moreover have "0 \<le> B k" by (simp add: B_def)
      ultimately show ?thesis using flB [of k] by simp
    qed
    have bd: "?body (B k) (Suc k) = (0, fl pp, pp)"
      unfolding body pp_def ..
    have sch: "cur_schedule (push_period_fl ?body s) = cur_schedule s @
        [\<lparr>period = Suc k, payment = fl pp, principalPortion = pp,
          interest = 0, balance = B (Suc k)\<rparr>]"
      and kk: "cur_period (push_period_fl ?body s) = Suc k"
      and bb: "cur_balance (push_period_fl ?body s) = B (Suc k)"
      unfolding push_period_fl_def Let_def b k_def [symmetric] by (simp_all add: bd bal)
    have p29: "k = 29 \<Longrightarrow> pp = ?base" by (simp add: pp_def B_def)
    have "30 \<le> Suc k \<longrightarrow> principalPortion (cur_schedule (push_period_fl ?body s) ! 29) = ?base"
    proof (cases "k = 29")
      case True
      then show ?thesis unfolding sch using len p29 by (simp add: nth_append)
    next
      case False
      then show ?thesis unfolding sch using len row by (auto simp: nth_append)
    qed
    then show ?thesis
      unfolding I_def kk bb using k per by (simp add: sch)
  qed
  from period_loop_fl_rule [of I "initial_state 1000000000000000" 70 ?body, OF inv0 step]
  obtain s where s: "I s"
    and fin: "period_loop_fl ?body 70 (initial_state 1000000000000000) = s \<or>
       period_loop_fl ?body 70 (initial_state 1000000000000000) = s\<lparr>cur_balance := 0\<rparr>"
    and ex: "cur_balance s \<le> fl (1 / 100) \<or> \<not> cur_period s < 70"
    by blast
  from fin have sch: "cur_schedule (interest_only_loop_fl example_large_interest_only) =
      cur_schedule s"
    unfolding f by auto
  from s ex have k: "cur_period s = 36"
    by (auto simp: I_def B_def fl_cent split: if_splits)
  from s have "map period (cur_schedule s) = [1..<Suc (cur_period s)]"
    and "30 \<le> cur_period s \<longrightarrow> principalPortion (cur_schedule s ! 29) = ?base"
    by (simp_all add: I_def)
  then have per: "map period (cur_schedule s) = [1..<Suc 36]"
    and row: "principalPortion (cur_schedule s ! 29) = ?base"
    unfolding k by simp_all
  from per have len: "length (cur_schedule s) = 36" by (rule length_periods)
  have "period (cur_schedule s ! 29) = map period (cur_schedule s) ! 29"
    using len by simp
  also have "\<dots> = 30" unfolding per by (simp del: upt_Suc)
  finally have p30: "period (cur_schedule s ! 29) = 30" .
  have ne: "cur_schedule s \<noteq> []" using len by auto
  from per len have "map period (cur_schedule s) = [1..<Suc (length (cur_schedule s))]"
    by simp
  from last_period [OF this ne] len have "period (last (cur_schedule s)) = 36" by simp
  then show ?thesis unfolding sch using len p30 row by simp
qed

text \<open>
  C6, as stated, fails: row 30 of that schedule has a principal part that is not 0, and
  its period is neither a multiple of twelve nor the final period of the schedule, which
  is 36.
\<close>

theorem large_interest_only_runs_past_final_period:
  "valid example_large_interest_only \<and> extraPayment example_large_interest_only = 0 \<and>
   29 < length (schedule (calculateInterestOnlyLoan_fl example_large_interest_only)) \<and>
   period (schedule (calculateInterestOnlyLoan_fl example_large_interest_only) ! 29) = 30 \<and>
   30 mod paymentsPerYear example_large_interest_only = 6 \<and>
   period (last (schedule (calculateInterestOnlyLoan_fl example_large_interest_only))) = 36 \<and>
   principalPortion (schedule (calculateInterestOnlyLoan_fl example_large_interest_only) ! 29) =
     5333333333333333 / 16"
  using example_large_interest_only_run
  by (simp add: calculateInterestOnlyLoan_fl_def Let_def)
     (simp add: valid_def example_large_interest_only_def)

subsection \<open>Reaching the iteration cap\<close>

text \<open>
  C1, as amended. When the loop of the selected method ends at the cap of
  \<open>2 * totalPeriods + 10\<close> periods with the balance still positive, on doubles,
  \<^verbatim>\<open>calculateLoan\<close> returns a result object as after a payoff: its schedule has as many
  rows as the cap allows, the last row carries the positive balance, and the payoff label
  is the one of the cap.
\<close>

theorem cap_returns_truncated_schedule:
  assumes "loop_fl_of p = Some f"
    and "cur_period f = maxIterations_fl p"
    and "0 < cur_balance f"
  shows "\<exists>c. calculateLoan_fl p = Some c \<and>
           schedule c = cur_schedule f \<and>
           length (schedule c) = maxIterations_fl p \<and>
           balance (last (schedule c)) = cur_balance f \<and>
           0 < balance (last (schedule c)) \<and>
           payoffLabel (summary c) =
             formatPayoffTime (maxIterations_fl p) (paymentsPerYear p)"
proof -
  have capped: "length (cur_schedule f) = maxIterations_fl p \<and>
      balance (last (cur_schedule f)) = cur_balance f"
    if "f = period_loop_fl body (maxIterations_fl p) (initial_state (principal p))" for body
    using period_loop_fl_capped [of body "maxIterations_fl p" "principal p"] assms(3)
      maxIterations_fl_pos [of p]
    unfolding that by simp
  consider (ep) "method p = METHODS_EQUAL_PRINCIPAL"
    | (io) "method p \<noteq> METHODS_EQUAL_PRINCIPAL" "method p = METHODS_INTEREST_ONLY"
    | (am) "method p \<noteq> METHODS_EQUAL_PRINCIPAL" "method p \<noteq> METHODS_INTEREST_ONLY"
    by blast
  then show ?thesis
  proof cases
    case ep
    with assms(1) have f: "f = equal_principal_loop_fl p" by (simp add: loop_fl_of_def)
    from capped [OF f [unfolded equal_principal_loop_fl_def]] assms(2,3) ep show ?thesis
      by (simp add: calculateLoan_fl_def calculateEqualPrincipalLoan_fl_def Let_def f [symmetric])
  next
    case io
    with assms(1) have f: "f = interest_only_loop_fl p" by (simp add: loop_fl_of_def)
    from capped [OF f [unfolded interest_only_loop_fl_def]] assms(2,3) io show ?thesis
      by (simp add: calculateLoan_fl_def calculateInterestOnlyLoan_fl_def Let_def f [symmetric])
  next
    case am
    with assms(1) obtain b where b: "basePayment_fl p = Some b"
      and f: "f = amortized_loop_fl p (fl (b + extraPayment p))"
      by (auto simp: loop_fl_of_def)
    from capped [OF f [unfolded amortized_loop_fl_def]] assms(2,3) am b show ?thesis
      by (simp add: calculateLoan_fl_def calculateAmortizedLoan_fl_def Let_def f [symmetric])
  qed
qed

lemma power_480_large:
  fixes q :: real
  assumes "10833 / 10000 \<le> q"
  shows "2 ^ 55 \<le> q ^ 480"
proof -
  have a: "(495 / 100 :: real) \<le> (10833 / 10000) ^ 20" by (simp add: power_divide)
  have b: "(2 :: real) ^ 55 \<le> (495 / 100) ^ 24" by (simp add: power_divide)
  have "(10833 / 10000 :: real) ^ 20 \<le> q ^ 20"
    using assms by (intro power_mono) simp_all
  with a have "495 / 100 \<le> q ^ 20" by linarith
  then have "(495 / 100) ^ 24 \<le> (q ^ 20) ^ 24"
    by (intro power_mono) simp_all
  also have "(q ^ 20) ^ 24 = q ^ 480" by (simp flip: power_mult)
  finally show ?thesis using b by linarith
qed

lemma example_high_rate_constants:
  "totalPeriods_fl example_high_rate = 480"
  "periodicRate_fl example_high_rate = 6004799503160661 / 72057594037927936"
  "basePayment_fl example_high_rate = Some (5864062014805333 / 70368744177664)"
proof -
  define q :: real where "q = 4878899596318037 / 4503599627370496"
  have f480: "fl 480 = 480"
    by (subst fl_at [where e = 8]) (simp_all add: round_half_even_def)
  show n: "totalPeriods_fl example_high_rate = 480"
    by (simp add: totalPeriods_fl_def Math_round_def example_high_rate_def f480)
  have f12: "fl (1 / 12) = 6004799503160661 / 72057594037927936"
    by (subst fl_at [where e = "- 4"]) (simp_all add: round_half_even_def power_int_minus)
  show r: "periodicRate_fl example_high_rate = 6004799503160661 / 72057594037927936"
    by (simp add: periodicRate_fl_def example_high_rate_def fl_1 f12)
  have fq: "fl (1 + 6004799503160661 / 72057594037927936) = q"
    unfolding q_def
    by (subst fl_at [where e = 0]) (simp_all add: round_half_even_def power_int_minus)
  have "(2::real) ^ 55 \<le> q ^ 480"
    by (rule power_480_large) (simp add: q_def)
  moreover have q0: "0 < q" by (simp add: q_def)
  ultimately have "q powi (- 480) \<le> 2 powi (- 55)" "0 < q powi (- 480)"
    by (simp_all add: power_int_minus field_simps)
  then have "0 \<le> fl (q powi (- 480)) \<and> fl (q powi (- 480)) \<le> 2 powi (- 55)"
    by (intro fl_le_power_of_two) simp_all
  then have "fl (1 - fl (q powi (- 480))) = 1"
    by (intro fl_near_one) simp_all
  then have d: "fl (1 - fl (q powi (- int 480))) = 1" by simp
  have fa: "fl (1000 * (6004799503160661 / 72057594037927936)) =
      5864062014805333 / 70368744177664"
    by (subst fl_at [where e = 6]) (simp_all add: round_half_even_def power_int_minus)
  have fa': "fl (5864062014805333 / 70368744177664) = 5864062014805333 / 70368744177664"
    by (subst fl_at [where e = 6]) (simp_all add: round_half_even_def power_int_minus)
  have p: "principal example_high_rate = 1000" by (simp add: example_high_rate_def)
  show "basePayment_fl example_high_rate = Some (5864062014805333 / 70368744177664)"
    unfolding basePayment_fl_def Math_pow_fl_def r n p Let_def fq d fa div_by_1 fa'
    by simp
qed

text \<open>
  With the payment equal to the interest, no period of \<open>example_high_rate\<close> pays any
  principal: the balance is 1000 after each of the 970 periods.
\<close>

lemma example_high_rate_capped:
  "loop_fl_of example_high_rate =
     Some (amortized_loop_fl example_high_rate (5864062014805333 / 70368744177664))"
  "cur_period (amortized_loop_fl example_high_rate (5864062014805333 / 70368744177664)) = 970"
  "cur_balance (amortized_loop_fl example_high_rate (5864062014805333 / 70368744177664)) = 1000"
  "maxIterations_fl example_high_rate = 970"
proof -
  let ?A = "5864062014805333 / 70368744177664 :: real"
  let ?r = "6004799503160661 / 72057594037927936 :: real"
  let ?body = "amortized_period_fl ?r ?A"
  let ?f = "period_loop_fl ?body 970 (initial_state 1000)"
  note c = example_high_rate_constants
  show m: "maxIterations_fl example_high_rate = 970"
    by (simp add: maxIterations_fl_def c)
  have fa: "fl ?A = ?A"
    by (subst fl_at [where e = 6]) (simp_all add: round_half_even_def power_int_minus)
  have e: "extraPayment example_high_rate = 0" "method example_high_rate = ''amortized''"
    "principal example_high_rate = 1000"
    by (simp_all add: example_high_rate_def)
  show "loop_fl_of example_high_rate = Some (amortized_loop_fl example_high_rate ?A)"
    by (simp add: loop_fl_of_def e c fa METHODS_EQUAL_PRINCIPAL_def METHODS_INTEREST_ONLY_def)
  have f: "amortized_loop_fl example_high_rate ?A = ?f"
    by (simp add: amortized_loop_fl_def c m e)
  have i: "fl (1000 * ?r) = ?A"
    by (subst fl_at [where e = 6]) (simp_all add: round_half_even_def power_int_minus)
  have s: "fl (1000 + ?A) = 4764550387029333 / 4398046511104"
    by (subst fl_at [where e = 10]) (simp_all add: round_half_even_def power_int_minus)
  have k: "fl 1000 = 1000"
    by (subst fl_at [where e = 9]) (simp_all add: round_half_even_def)
  have rne: "?r \<noteq> 0" by simp
  have body: "?body 1000 n = (?A, ?A, 0)" for n
    unfolding amortized_period_fl_def Let_def if_not_P [OF rne] i s by (simp add: fl_0)
  let ?I = "\<lambda>s. cur_balance s = 1000 \<and> cur_period s \<le> 970"
  have inv0: "?I (initial_state 1000)" by (simp add: initial_state_def)
  have step: "?I (push_period_fl ?body s)" if "?I s" "cur_period s < 970" for s
    using that by (simp add: push_period_fl_def Let_def body k)
  from period_loop_fl_cases [of ?I "initial_state 1000" 970 ?body, OF inv0 step]
  obtain s where s: "?I s"
    and cases: "(?f = s \<and> \<not> (0 < cur_balance s \<and> cur_period s < 970)) \<or>
      (?f = s\<lparr>cur_balance := 0\<rparr> \<and> cur_balance s \<le> fl (1 / 100))"
    by blast
  from s have "\<not> cur_balance s \<le> fl (1 / 100)" by (simp add: fl_cent)
  with cases have fs: "?f = s" and "\<not> (0 < cur_balance s \<and> cur_period s < 970)" by auto
  with s have "cur_period s = 970" by simp
  with s show "cur_period (amortized_loop_fl example_high_rate ?A) = 970"
    "cur_balance (amortized_loop_fl example_high_rate ?A) = 1000"
    unfolding f fs by simp_all
qed

theorem cap_returns_truncated_schedule_witness:
  "loop_fl_of example_high_rate =
     Some (amortized_loop_fl example_high_rate (5864062014805333 / 70368744177664)) \<and>
   cur_period (amortized_loop_fl example_high_rate (5864062014805333 / 70368744177664)) =
     maxIterations_fl example_high_rate \<and>
   0 < cur_balance (amortized_loop_fl example_high_rate (5864062014805333 / 70368744177664)) \<and>
   (\<exists>c. calculateLoan_fl example_high_rate = Some c \<and>
      schedule c =
        cur_schedule (amortized_loop_fl example_high_rate (5864062014805333 / 70368744177664)) \<and>
      length (schedule c) = maxIterations_fl example_high_rate \<and>
      balance (last (schedule c)) =
        cur_balance (amortized_loop_fl example_high_rate (5864062014805333 / 70368744177664)) \<and>
      0 < balance (last (schedule c)) \<and>
      payoffLabel (summary c) =
        formatPayoffTime (maxIterations_fl example_high_rate) (paymentsPerYear example_high_rate))"
  using cap_returns_truncated_schedule
    [of example_high_rate "amortized_loop_fl example_high_rate (5864062014805333 / 70368744177664)"]
    example_high_rate_capped
  by simp

text \<open>
  C1, as stated, fails: the engine has no failure result. The validated parameter set
  \<open>example_high_rate\<close> reaches the cap with the whole principal unpaid, and the caller
  receives a schedule of 970 rows and a payoff label.
\<close>

theorem cap_reached_on_valid_input:
  "valid example_high_rate \<and> maxIterations_fl example_high_rate = 970 \<and>
   (\<exists>c. calculateLoan_fl example_high_rate = Some c \<and> length (schedule c) = 970 \<and>
      balance (last (schedule c)) = 1000 \<and>
      payoffLabel (summary c) = formatPayoffTime 970 12)"
proof -
  let ?f = "amortized_loop_fl example_high_rate (5864062014805333 / 70368744177664)"
  note c = example_high_rate_capped
  have m: "method example_high_rate = ''amortized''" "extraPayment example_high_rate = 0"
    "paymentsPerYear example_high_rate = 12"
    by (simp_all add: example_high_rate_def)
  have fa: "fl (5864062014805333 / 70368744177664) = 5864062014805333 / 70368744177664"
    by (subst fl_at [where e = 6]) (simp_all add: round_half_even_def power_int_minus)
  have e: "?f = period_loop_fl
      (amortized_period_fl (periodicRate_fl example_high_rate) (5864062014805333 / 70368744177664))
      970 (initial_state (principal example_high_rate))"
    by (simp add: amortized_loop_fl_def c)
  have pos: "0 < cur_balance ?f" by (simp add: c)
  from period_loop_fl_capped [OF pos [unfolded e]]
  have "length (cur_schedule ?f) = 970" "balance (last (cur_schedule ?f)) = 1000"
    unfolding e [symmetric] by (simp_all add: c)
  moreover have "calculateLoan_fl example_high_rate =
      Some \<lparr>schedule = cur_schedule ?f,
            summary =
              \<lparr>paymentInfo = AmortizedInfo (5864062014805333 / 70368744177664)
                 (5864062014805333 / 70368744177664) 0,
               totalPaid = cur_totalPaid ?f, totalInterest = cur_totalInterest ?f,
               payoffLabel = formatPayoffTime 970 12\<rparr>\<rparr>"
    by (simp add: calculateLoan_fl_def calculateAmortizedLoan_fl_def Let_def m
        example_high_rate_constants fa c METHODS_EQUAL_PRINCIPAL_def METHODS_INTEREST_ONLY_def)
  moreover have "valid example_high_rate" by (simp add: valid_def example_high_rate_def)
  ultimately show ?thesis by (simp add: c)
qed

subsection \<open>The scenario with an extra payment of 5000\<close>

lemma ideal_balance_decreasing:
  assumes "0 \<le> r" "P * r \<le> A"
  shows "ideal_balance P r A (Suc k) \<le> ideal_balance P r A k \<and> ideal_balance P r A k \<le> P"
proof (induction k)
  case 0
  from assms show ?case by (simp add: algebra_simps)
next
  case (Suc k)
  then have le: "ideal_balance P r A (Suc k) \<le> P" by simp
  then have "ideal_balance P r A (Suc k) * r \<le> P * r"
    using assms(1) by (intro mult_right_mono)
  with assms(2) have "ideal_balance P r A (Suc k) * (1 + r) - A \<le> ideal_balance P r A (Suc k)"
    by (simp add: algebra_simps)
  with le show ?case by simp
qed

lemma ideal_balance_antimono:
  assumes "0 \<le> r" "P * r \<le> A" "j \<le> k"
  shows "ideal_balance P r A k \<le> ideal_balance P r A j"
  using assms(3)
proof (induction k)
  case 0
  then show ?case by simp
next
  case (Suc k)
  show ?case
  proof (cases "j = Suc k")
    case True
    then show ?thesis by simp
  next
    case False
    with Suc have "ideal_balance P r A k \<le> ideal_balance P r A j" by simp
    moreover have "ideal_balance P r A (Suc k) \<le> ideal_balance P r A k"
      using ideal_balance_decreasing [OF assms(1,2)] by blast
    ultimately show ?thesis by linarith
  qed
qed

text \<open>
  The amortized loop follows the uncapped balance as long as that is above 0.01 and stops
  in the first period in which it is not; its rows are those of \<open>amortized_row\<close>.
\<close>

lemma amortized_push_row:
  assumes "cur_balance s = ideal_balance P r A (cur_period s)"
  shows "push_period (amortized_period r A) s =
     \<lparr>cur_balance = max 0 (ideal_balance P r A (Suc (cur_period s))),
      cur_period = Suc (cur_period s),
      cur_totalInterest = cur_totalInterest s + ideal_balance P r A (cur_period s) * r,
      cur_totalPaid = cur_totalPaid s + min A (ideal_balance P r A (cur_period s) * (1 + r)),
      cur_schedule = cur_schedule s @ [amortized_row P r A (cur_period s)]\<rparr>"
proof -
  let ?b = "ideal_balance P r A (cur_period s)"
  have "amortized_period r A ?b (Suc (cur_period s)) =
      (?b * r, min A (?b * (1 + r)), min A (?b * (1 + r)) - ?b * r)"
    by (simp add: amortized_period_def Let_def min_def algebra_simps)
  then have "push_period (amortized_period r A) s =
     \<lparr>cur_balance = max 0 (?b - (min A (?b * (1 + r)) - ?b * r)),
      cur_period = Suc (cur_period s),
      cur_totalInterest = cur_totalInterest s + ?b * r,
      cur_totalPaid = cur_totalPaid s + min A (?b * (1 + r)),
      cur_schedule = cur_schedule s @
        [\<lparr>period = Suc (cur_period s), payment = min A (?b * (1 + r)),
          principalPortion = min A (?b * (1 + r)) - ?b * r, interest = ?b * r,
          balance = max 0 (?b - (min A (?b * (1 + r)) - ?b * r))\<rparr>]\<rparr>"
    by (simp add: push_period_def assms Let_def)
  moreover have "max 0 (?b - (min A (?b * (1 + r)) - ?b * r)) =
      max 0 (ideal_balance P r A (Suc (cur_period s)))"
    by (simp add: min_def max_def algebra_simps)
  ultimately show ?thesis by (simp add: amortized_row_def)
qed

lemma amortized_rows_until_payoff:
  assumes above: "\<And>k. k < m \<Longrightarrow> 1 / 100 < ideal_balance P r A k"
    and below: "ideal_balance P r A m \<le> 1 / 100" and m: "0 < m" "m \<le> M"
  shows "cur_period (period_loop (amortized_period r A) M (initial_state P)) = m \<and>
         cur_schedule (period_loop (amortized_period r A) M (initial_state P)) =
           map (amortized_row P r A) [0..<m]"
proof -
  let ?body = "amortized_period r A"
  let ?ib = "ideal_balance P r A"
  let ?I = "\<lambda>s. cur_period s \<le> m \<and>
     cur_schedule s = map (amortized_row P r A) [0..<cur_period s] \<and>
     (if cur_period s < m then cur_balance s = ?ib (cur_period s)
      else cur_balance s = max 0 (?ib m))"
  let ?f = "period_loop ?body M (initial_state P)"
  have inv0: "?I (initial_state P)" using m by (simp add: initial_state_def)
  have step: "?I (push_period ?body s)"
    if I: "?I s" and origin: "s = initial_state P \<or> 1 / 100 < cur_balance s" for s
  proof -
    have k: "cur_period s < m"
    proof (rule ccontr)
      assume n: "\<not> cur_period s < m"
      with I have "cur_balance s = max 0 (?ib m)" "cur_period s = m" by simp_all
      with below have "cur_balance s \<le> 1 / 100" by simp
      with origin n m show False by (auto simp: initial_state_def)
    qed
    with I have b: "cur_balance s = ?ib (cur_period s)" by simp
    note push = amortized_push_row [OF b]
    show ?thesis
    proof (cases "Suc (cur_period s) < m")
      case True
      with above [of "Suc (cur_period s)"] have "0 < ?ib (Suc (cur_period s))" by simp
      with True I k show ?thesis unfolding push by simp
    next
      case False
      with k have "m = Suc (cur_period s)" by simp
      with I show ?thesis unfolding push by simp
    qed
  qed
  from period_loop_rule [of ?I "initial_state P" M ?body, OF inv0 step]
  obtain s where s: "?I s"
    and cases: "(?f = s \<and> s = initial_state P \<and>
        \<not> (0 < cur_balance (initial_state P) \<and> cur_period (initial_state P) < M)) \<or>
      (?f = s \<and> cur_schedule s \<noteq> [] \<and> 1 / 100 < cur_balance s \<and> \<not> cur_period s < M) \<or>
      (?f = s\<lparr>cur_balance := 0\<rparr> \<and> cur_schedule s \<noteq> [] \<and> cur_balance s \<le> 1 / 100)"
    by blast
  from above [of 0] m have P: "1 / 100 < P" by simp
  have "\<not> (?f = s \<and> s = initial_state P \<and>
        \<not> (0 < cur_balance (initial_state P) \<and> cur_period (initial_state P) < M))"
    using P m by (simp add: initial_state_def)
  moreover have "\<not> (?f = s \<and> cur_schedule s \<noteq> [] \<and> 1 / 100 < cur_balance s \<and> \<not> cur_period s < M)"
  proof
    assume c: "?f = s \<and> cur_schedule s \<noteq> [] \<and> 1 / 100 < cur_balance s \<and> \<not> cur_period s < M"
    with s m have "cur_period s = m" by simp
    with s have "cur_balance s = max 0 (?ib m)" by simp
    with below c show False by (simp add: max_def split: if_splits)
  qed
  ultimately have f: "?f = s\<lparr>cur_balance := 0\<rparr>" and small: "cur_balance s \<le> 1 / 100"
    using cases by blast+
  have "\<not> cur_period s < m"
  proof
    assume "cur_period s < m"
    with s above [of "cur_period s"] small show False by simp
  qed
  with s have "cur_period s = m" by simp
  with s show ?thesis unfolding f by simp
qed

lemma example_extra_rows:
  "cur_period (amortized_loop example_extra) = 8 \<and>
   example_extra_schedule = map (amortized_row 100000 (1 / 240)
      (76012751444666044807242622816250 / 5605350858386829195183253443)) [0..<8] \<and>
   basePayment example_extra + extraPayment example_extra =
      76012751444666044807242622816250 / 5605350858386829195183253443 \<and>
   1 / 100 < ideal_balance 100000 (1 / 240)
      (76012751444666044807242622816250 / 5605350858386829195183253443) 7 \<and>
   ideal_balance 100000 (1 / 240)
      (76012751444666044807242622816250 / 5605350858386829195183253443) 8 < 0"
proof -
  let ?A = "76012751444666044807242622816250 / 5605350858386829195183253443 :: real"
  have n: "totalPeriods example_extra = 12"
    by (simp add: totalPeriods_def Math_round_def example_extra_def)
  have r: "periodicRate example_extra = 1 / 240"
    by (simp add: periodicRate_def example_extra_def)
  have A: "basePayment example_extra + extraPayment example_extra = ?A"
    by (simp add: basePayment_def r n power_int_minus power_divide) (simp add: example_extra_def)
  have f: "amortized_loop example_extra =
      period_loop (amortized_period (1 / 240) ?A) 34 (initial_state 100000)"
    by (simp add: amortized_loop_def maxIterations_def n r A) (simp add: example_extra_def)
  have i7: "1 / 100 < ideal_balance 100000 (1 / 240) ?A 7"
    by (simp add: ideal_balance_closed power_divide)
  have i8: "ideal_balance 100000 (1 / 240) ?A 8 < 0"
    by (simp add: ideal_balance_closed power_divide)
  have above: "1 / 100 < ideal_balance 100000 (1 / 240) ?A k" if "k < 8" for k
  proof -
    have "ideal_balance 100000 (1 / 240) ?A 7 \<le> ideal_balance 100000 (1 / 240) ?A k"
      using that by (intro ideal_balance_antimono) simp_all
    with i7 show ?thesis by linarith
  qed
  have below: "ideal_balance 100000 (1 / 240) ?A 8 \<le> 1 / 100" using i8 by simp
  from amortized_rows_until_payoff [of 8 100000 "1 / 240" ?A 34, OF above below]
  have "cur_period (amortized_loop example_extra) = 8"
    "cur_schedule (amortized_loop example_extra) = map (amortized_row 100000 (1 / 240) ?A) [0..<8]"
    unfolding f by simp_all
  with A i7 i8 show ?thesis
    by (simp add: example_extra_schedule_def calculateAmortizedLoan_def Let_def)
qed

lemma amortized_row_full_payment:
  assumes "0 \<le> ideal_balance P r A (Suc i)"
  shows "payment (amortized_row P r A i) = A"
  using assms by (simp add: amortized_row_def min_def)

lemma amortized_row_capped:
  assumes "ideal_balance P r A (Suc i) < 0"
  shows "payment (amortized_row P r A i) < A"
    and "principalPortion (amortized_row P r A i) = ideal_balance P r A i"
    and "payment (amortized_row P r A i) =
         ideal_balance P r A i + interest (amortized_row P r A i)"
    and "balance (amortized_row P r A i) = 0"
  using assms by (simp_all add: amortized_row_def min_def algebra_simps)

text \<open>
  C3, as amended. The scenario takes eight periods, in exact arithmetic: the schedule has
  eight rows, the first seven payments are the base payment plus the extra payment, the
  eighth is smaller, being capped at the balance left by the seventh row plus its
  interest, and leaves the balance 0; the payoff label is that of eight months.
\<close>

theorem extra_5000_takes_eight_periods:
  "length example_extra_schedule = 8 \<and>
   list_all (\<lambda>e. payment e = basePayment example_extra + extraPayment example_extra)
     (butlast example_extra_schedule) \<and>
   payment (last example_extra_schedule) <
     basePayment example_extra + extraPayment example_extra \<and>
   principalPortion (last example_extra_schedule) = balance (example_extra_schedule ! 6) \<and>
   payment (last example_extra_schedule) =
     balance (example_extra_schedule ! 6) + interest (last example_extra_schedule) \<and>
   balance (last example_extra_schedule) = 0 \<and>
   payoffLabel (summary (calculateAmortizedLoan example_extra)) = ''8'' @ label_ge @ label_month"
proof -
  let ?A = "76012751444666044807242622816250 / 5605350858386829195183253443 :: real"
  let ?ib = "ideal_balance 100000 (1 / 240) ?A"
  let ?row = "amortized_row 100000 (1 / 240) ?A"
  from example_extra_rows have k: "cur_period (amortized_loop example_extra) = 8"
    and sch: "example_extra_schedule = map ?row [0..<8]"
    and A: "basePayment example_extra + extraPayment example_extra = ?A"
    and i7: "1 / 100 < ?ib 7" and i8: "?ib 8 < 0"
    by blast+
  have mono: "?ib 7 \<le> ?ib j" if "j \<le> 7" for j
    using that by (intro ideal_balance_antimono) simp_all
  have full: "payment (?row i) = ?A" if "i < 7" for i
  proof -
    from that mono [of "Suc i"] i7 have "0 \<le> ?ib (Suc i)" by simp
    then show ?thesis by (rule amortized_row_full_payment)
  qed
  have u: "[0..<(8::nat)] = [0..<7] @ [7]"
    using upt_Suc_append [of 0 7] by simp
  have last: "last example_extra_schedule = ?row 7"
    unfolding sch u by simp
  have butlast: "butlast example_extra_schedule = map ?row [0..<7]"
    unfolding sch u by simp
  have six: "example_extra_schedule ! 6 = ?row 6"
    unfolding sch by (simp add: nth_map del: upt_rec_numeral)
  have b6: "balance (?row 6) = ?ib 7"
    using i7 by (simp add: amortized_row_def)
  have i8': "?ib (Suc 7) < 0" using i8 by simp
  note cap = amortized_row_capped [OF i8']
  have label: "formatPayoffTime 8 12 = ''8'' @ label_ge @ label_month"
    by (simp add: formatPayoffTime_def decimal.simps digit_def)
  have ppy: "paymentsPerYear example_extra = 12" by (simp add: example_extra_def)
  have "list_all (\<lambda>e. payment e = ?A) (map ?row [0..<7])"
    using full by (simp add: list_all_iff)
  moreover have "length example_extra_schedule = 8" unfolding sch by simp
  moreover have "payoffLabel (summary (calculateAmortizedLoan example_extra)) =
      ''8'' @ label_ge @ label_month"
    using k by (simp add: calculateAmortizedLoan_def Let_def label ppy)
  ultimately show ?thesis
    unfolding A last butlast six b6 using cap by simp
qed

text \<open>C3, as stated, fails: the schedule does not have length 1.\<close>

theorem extra_5000_not_one_period:
  "length (schedule (calculateAmortizedLoan example_extra)) \<noteq> 1"
  using example_extra_rows by (simp add: example_extra_schedule_def)

end
